theory Spec2Isabelle
  imports Main "HOL-Library.Word" "HOL-Library.Sublist"
begin

section \<open>The LocalStack container controller (localstack.go)\<close>

text \<open>
  The controller drives one Docker container through a client of the container runtime.
  The runtime is outside the program, so every reply it gives is a field of the record
  \<open>docker\<close>, and every request the controller sends is logged in a list of \<open>call\<close>s.
  A method of the controller is a function from the runtime's replies and the controller
  state to an outcome, the new state and the requests sent. The result is \<open>None\<close> when the
  method never returns: a \<open>Lock\<close> on a mutex that is already held, or a readiness loop
  that runs forever.
\<close>

subsection \<open>Constants\<close>

definition Port :: string where
  "Port = ''4566''"

definition FixedPort :: string where
  "FixedPort = Port @ ''/tcp''"

definition LocalStackImage :: string where
  "LocalStackImage = ''localstack/localstack:3.0''"

subsection \<open>Data\<close>

record PortBinding =
  HostIP :: string
  HostPort :: string

type_synonym PortMap = "string \<rightharpoonup> PortBinding list"

datatype MountType = TypeBind

record Mount =
  Type :: MountType
  Source :: string
  Target :: string
  ReadOnly :: bool

datatype Context = TODO

datatype client = Client

text \<open>
  The struct \<open>Stack\<close>. The embedded \<open>sync.RWMutex\<close> is the field \<open>mu\<close>: true while
  the write lock is held. \<open>initTimeout\<close> is a Go \<open>int\<close>, taken as 64 bits wide and read
  as two's complement. \<open>volumeMounts\<close> is a Go map: the list of its entries, with distinct
  keys, in the order in which \<open>range\<close> visits them (an order the language leaves open).
  \<open>cli\<close> is a pointer: \<open>None\<close> is nil.
\<close>

record Stack =
  mu :: bool
  started :: bool
  reuseExisting :: bool
  containerName :: string
  ctx :: Context
  cli :: "client option"
  volumeMounts :: "(string \<times> string) list"
  initCompleteLogLine :: string
  containerID :: string
  initTimeout :: "64 word"
  pm :: PortMap
  waitForInit :: bool

text \<open>
  Errors. \<open>E m\<close> is an error of the runtime client whose \<open>Error()\<close> text is \<open>m\<close>;
  \<open>CouldNotCreate m\<close> is \<open>fmt.Errorf("localstack: could not create container: %w", err)\<close>
  around such an error; \<open>InitTimeoutExceeded n\<close> is
  \<open>fmt.Errorf("localstack: init timeout exceeded (%d seconds)", n)\<close>.
\<close>

datatype error =
    E string
  | CouldNotCreate string
  | InitTimeoutExceeded "64 word"

text \<open>A call either returns (nil or an error) or panics.\<close>

datatype outcome = Returned "error option" | Panicked

text \<open>What \<open>ContainerLogs\<close> followed by \<open>io.ReadAll\<close> gives at one poll.\<close>

datatype logs = LogsError string | ReadError string | LogContent string

text \<open>
  The replies of the runtime during one call of \<open>Start\<close> or \<open>Stop\<close>. An error is given
  by its text. \<open>imageList\<close> gives the \<open>RepoTags\<close> of each image listed,
  \<open>pullDrain\<close> the error of draining the pull's stream, \<open>containerCreate\<close> the
  \<open>ID\<close> of the response. \<open>containerLogs k\<close> is the log snapshot at the \<open>k\<close>-th
  poll and \<open>since k\<close> the value of \<open>time.Since(start)\<close> at the \<open>k\<close>-th test of
  the timeout, a \<open>time.Duration\<close>: 64 bits, nanoseconds.
\<close>

record docker =
  newClientWithOpts :: "string option"
  imageList :: "string + string list list"
  imagePull :: "string option"
  pullDrain :: "string option"
  containerCreate :: "string + string"
  containerStart :: "string option"
  containerLogs :: "nat \<Rightarrow> logs"
  since :: "nat \<Rightarrow> 64 word"
  containerInspect :: "string + PortMap"
  containerStop :: "string option"

text \<open>The requests sent to the runtime, the watcher goroutine spawned, and the sleeps.\<close>

datatype call =
    NewClientWithOpts
  | ImageList string
  | ImagePull string
  | ContainerCreate string "Mount list" PortMap
  | ContainerStart string
  | ContainerLogs string
  | ContainerInspect string
  | ContainerStop string int
  | GoWatcher
  | Sleep int

subsection \<open>The constructor\<close>

definition New :: Stack where
  "New = \<lparr> mu = False, started = False, reuseExisting = False, containerName = '''',
           ctx = TODO, cli = None, volumeMounts = [], initCompleteLogLine = '''',
           containerID = '''', initTimeout = 0, pm = Map.empty, waitForInit = True \<rparr>"

subsection \<open>The mutex\<close>

text \<open>
  \<open>sync.RWMutex\<close> is not reentrant: \<open>Lock\<close> on a held mutex blocks until another
  goroutine unlocks it. Within one call nobody else does, so the call never returns.
\<close>

definition Lock :: "Stack \<Rightarrow> Stack option" where
  "Lock s = (if mu s then None else Some (s\<lparr>mu := True\<rparr>))"

definition Unlock :: "Stack \<Rightarrow> Stack" where
  "Unlock s = s\<lparr>mu := False\<rparr>"

subsection \<open>Stopping\<close>

definition stop :: "docker \<Rightarrow> Stack \<Rightarrow> outcome \<times> Stack \<times> call list" where
  "stop d s =
     (if \<not> started s \<or> containerID s = '''' then (Returned None, s, [])
      else case cli s of
        None \<Rightarrow> (Panicked, s, [])
      | Some c \<Rightarrow>
          (case containerStop d of
             Some err \<Rightarrow> (Returned (Some (E err)), s, [ContainerStop (containerID s) 10])
           | None \<Rightarrow> (Returned None, s\<lparr>containerID := '''', started := False\<rparr>,
                       [ContainerStop (containerID s) 10])))"

definition Stop :: "docker \<Rightarrow> Stack \<Rightarrow> (outcome \<times> Stack \<times> call list) option" where
  "Stop d s =
     (case Lock s of
        None \<Rightarrow> None
      | Some s1 \<Rightarrow> (case stop d s1 of (r, s2, tr) \<Rightarrow> Some (r, Unlock s2, tr)))"

subsection \<open>The endpoint\<close>

text \<open>\<open>port[0]\<close> panics on an empty slice: \<open>None\<close> is that panic.\<close>

definition EndpointURL :: "Stack \<Rightarrow> string option" where
  "EndpointURL s =
     (if containerID s \<noteq> '''' then
        (case pm s FixedPort of
           Some port \<Rightarrow>
             (case port of
                [] \<Rightarrow> None
              | b # _ \<Rightarrow> Some (''http://'' @ HostIP b @ '':'' @ HostPort b))
         | None \<Rightarrow> Some '''')
      else Some '''')"

subsection \<open>Mounts\<close>

definition getVolumeMounts :: "Stack \<Rightarrow> Mount list" where
  "getVolumeMounts s =
     map (\<lambda>(mountPath, localPath).
            \<lparr> Type = TypeBind, Source = localPath, Target = mountPath, ReadOnly = True \<rparr>)
         (volumeMounts s)
     @ [\<lparr> Type = TypeBind, Source = ''/var/run/docker.sock'',
          Target = ''/var/run/docker.sock'', ReadOnly = False \<rparr>]"

subsection \<open>The image\<close>

definition ensureImage :: "docker \<Rightarrow> string \<Rightarrow> error option \<times> call list" where
  "ensureImage d imageName =
     (case imageList d of
        Inl err \<Rightarrow> (Some (E err), [ImageList imageName])
      | Inr images \<Rightarrow>
          if imageName \<in> set (concat images)
          then (None, [ImageList imageName])
          else (case imagePull d of
                  Some err \<Rightarrow> (Some (E err), [ImageList imageName, ImagePull imageName])
                | None \<Rightarrow> (map_option E (pullDrain d),
                            [ImageList imageName, ImagePull imageName])))"

subsection \<open>Readiness\<close>

text \<open>\<open>strings.Contains\<close>: the second string occurs in the first as a contiguous block.\<close>

fun Contains :: "string \<Rightarrow> string \<Rightarrow> bool" where
  "Contains [] substr = (substr = [])"
| "Contains (c # cs) substr = (prefix substr (c # cs) \<or> Contains cs substr)"

definition initComplete :: "docker \<Rightarrow> Stack \<Rightarrow> nat \<Rightarrow> bool" where
  "initComplete d s k =
     (case containerLogs d k of
        LogsError err \<Rightarrow> False
      | ReadError err \<Rightarrow> False
      | LogContent logContent \<Rightarrow>
          Contains logContent
            (if initCompleteLogLine s = '''' then ''Ready.'' else initCompleteLogLine s))"

text \<open>
  \<open>time.Duration(s.initTimeout) * time.Second\<close>: a product of 64-bit integers, which
  wraps. The comparisons are signed.
\<close>

definition timedOut :: "docker \<Rightarrow> Stack \<Rightarrow> nat \<Rightarrow> bool" where
  "timedOut d s k =
     (0 <s initTimeout s \<and> (initTimeout s * 1000000000) <s since d k)"

text \<open>
  The \<open>for\<close> loop of \<open>start\<close>, at its \<open>k\<close>-th iteration, with the requests sent so far.
  It ends with the timeout error or, on \<open>break\<close>, with \<open>None\<close>.
\<close>

partial_function (option) waitLoop ::
  "docker \<Rightarrow> Stack \<Rightarrow> nat \<Rightarrow> call list \<Rightarrow> (error option \<times> call list) option" where
  "waitLoop d s k tr =
     (if timedOut d s k then Some (Some (InitTimeoutExceeded (initTimeout s)), tr)
      else if initComplete d s k then Some (None, tr @ [ContainerLogs (containerID s)])
      else waitLoop d s (Suc k) (tr @ [ContainerLogs (containerID s), Sleep 500]))"

declare waitLoop.simps [code]

subsection \<open>Starting\<close>

text \<open>The text \<open>strings.Contains\<close> looks for in the error of a failed creation.\<close>

definition nameInUse :: "Stack \<Rightarrow> string" where
  "nameInUse s =
     ''The container name '' @ [CHR 0x22] @ containerName s @ [CHR 0x22]
       @ '' is already in use by container''"

text \<open>The tail of \<open>start\<close>, from \<open>ContainerInspect\<close> on.\<close>

definition resolvePort :: "docker \<Rightarrow> Stack \<Rightarrow> call list \<Rightarrow> outcome \<times> Stack \<times> call list" where
  "resolvePort d s tr =
     (case containerInspect d of
        Inl err \<Rightarrow> (Returned (Some (E err)), s, tr @ [ContainerInspect (containerID s)])
      | Inr ports \<Rightarrow>
          (case ports FixedPort of
             None \<Rightarrow> (Panicked, s, tr @ [ContainerInspect (containerID s)])
           | Some [] \<Rightarrow> (Panicked, s, tr @ [ContainerInspect (containerID s)])
           | Some (b # _) \<Rightarrow>
               (Returned None,
                s\<lparr>pm := (pm s)(FixedPort \<mapsto> [\<lparr>HostIP = ''localhost'', HostPort = HostPort b\<rparr>]),
                  started := True\<rparr>,
                tr @ [ContainerInspect (containerID s)])))"

text \<open>
  \<open>start\<close>. The goroutine it spawns first waits on \<open>s.ctx.Done()\<close>. The only
  assignment to \<open>ctx\<close> is \<open>context.TODO()\<close> in \<open>New\<close>, whose channel never
  becomes ready, so the goroutine takes no step after the wait; its creation is recorded as
  \<open>GoWatcher\<close>.
\<close>

definition start :: "docker \<Rightarrow> Stack \<Rightarrow> (outcome \<times> Stack \<times> call list) option" where
  "start d s0 =
     (let s1 = s0\<lparr>pm := (pm s0)(FixedPort \<mapsto> [\<lparr>HostIP = ''0.0.0.0'', HostPort = ''''\<rparr>])\<rparr> in
      case ensureImage d LocalStackImage of
        (Some err, tr1) \<Rightarrow> Some (Returned (Some err), s1, GoWatcher # tr1)
      | (None, tr1) \<Rightarrow>
          let tr2 = GoWatcher # tr1
                      @ [ContainerCreate (containerName s1) (getVolumeMounts s1) (pm s1)] in
          (case containerCreate d of
             Inl err \<Rightarrow>
               if reuseExisting s1 \<and> Contains err (nameInUse s1)
               then Some (Returned None, s1, tr2)
               else Some (Returned (Some (CouldNotCreate err)), s1, tr2)
           | Inr ID \<Rightarrow>
               let s2 = s1\<lparr>containerID := ID\<rparr>;
                   tr3 = tr2 @ [ContainerStart (containerID s2)] in
               (case containerStart d of
                  Some err \<Rightarrow> Some (Returned (Some (E err)), s2, tr3)
                | None \<Rightarrow>
                    if waitForInit s2 then
                      (case waitLoop d s2 0 tr3 of
                         None \<Rightarrow> None
                       | Some (Some err, tr4) \<Rightarrow> Some (Returned (Some err), s2, tr4)
                       | Some (None, tr4) \<Rightarrow> Some (resolvePort d s2 tr4))
                    else Some (resolvePort d s2 tr3))))"

text \<open>
  The part of \<open>Start\<close> after the test of \<open>started\<close>: the options, which are functions
  on the controller applied in order, then the client, then \<open>start\<close>. \<open>tr\<close> holds the
  requests sent before.
\<close>

definition configureAndStart ::
  "(Stack \<Rightarrow> Stack) list \<Rightarrow> docker \<Rightarrow> Stack \<Rightarrow> call list
     \<Rightarrow> (outcome \<times> Stack \<times> call list) option" where
  "configureAndStart opts d s tr =
     (let s1 = fold (\<lambda>opt s'. opt s') opts s in
      case newClientWithOpts d of
        Some err \<Rightarrow> Some (Returned (Some (E err)), s1, tr @ [NewClientWithOpts])
      | None \<Rightarrow>
          (case start d (s1\<lparr>cli := Some Client\<rparr>) of
             None \<Rightarrow> None
           | Some (r, s2, tr') \<Rightarrow> Some (r, s2, tr @ NewClientWithOpts # tr')))"

text \<open>
  \<open>Start\<close>. The deferred \<open>Unlock\<close> runs on every way out. A forced restart calls the
  exported \<open>Stop\<close>, which takes the lock itself.
\<close>

definition Start ::
  "bool \<Rightarrow> (Stack \<Rightarrow> Stack) list \<Rightarrow> docker \<Rightarrow> Stack \<Rightarrow> (outcome \<times> Stack \<times> call list) option" where
  "Start forceRestart opts d s =
     (case Lock s of
        None \<Rightarrow> None
      | Some s1 \<Rightarrow>
          map_option (\<lambda>(r, s', tr). (r, Unlock s', tr))
            (if started s1 then
               if \<not> forceRestart then Some (Returned None, s1, [])
               else (case Stop d s1 of
                       None \<Rightarrow> None
                     | Some (Returned None, s2, tr) \<Rightarrow> configureAndStart opts d s2 tr
                     | Some (Returned (Some err), s2, tr) \<Rightarrow> Some (Returned (Some err), s2, tr)
                     | Some (Panicked, s2, tr) \<Rightarrow> Some (Panicked, s2, tr))
             else configureAndStart opts d s1 []))"

subsection \<open>Options, well-formed replies, reachable states\<close>

text \<open>
  Modelled from the spec: the type \<open>StackOption\<close> and the options themselves are declared
  outside \<open>localstack.go\<close>. The spec lists what an option sets: the container name, the
  volume mounts, the log line marker, the timeout, the reuse flag and the wait-for-init flag.
  So an option is a function on the controller that leaves the lock, \<open>started\<close>,
  \<open>containerID\<close>, the port map and the client as they are.
\<close>

definition configOption :: "(Stack \<Rightarrow> Stack) \<Rightarrow> bool" where
  "configOption opt =
     (\<forall>s. mu (opt s) = mu s \<and> started (opt s) = started s \<and>
          containerID (opt s) = containerID s \<and> pm (opt s) = pm s \<and> cli (opt s) = cli s)"

text \<open>The runtime never hands out an empty container identifier.\<close>

definition wellFormed :: "docker \<Rightarrow> bool" where
  "wellFormed d = (containerCreate d \<noteq> Inr '''')"

text \<open>
  The states a controller made by \<open>New\<close> reaches through calls of \<open>Start\<close> and
  \<open>Stop\<close> that return.
\<close>

inductive reachable :: "Stack \<Rightarrow> bool" where
  reachable_New: "reachable New"
| reachable_Start:
    "reachable s \<Longrightarrow> list_all configOption opts \<Longrightarrow> wellFormed d \<Longrightarrow>
     Start forceRestart opts d s = Some (r, s', tr) \<Longrightarrow> reachable s'"
| reachable_Stop:
    "reachable s \<Longrightarrow> Stop d s = Some (r, s', tr) \<Longrightarrow> reachable s'"

text \<open>
  The invariant: a started controller owns a container and its port map holds the binding
  resolved for \<open>4566/tcp\<close>, on host \<open>localhost\<close>.
\<close>

definition resolved :: "Stack \<Rightarrow> bool" where
  "resolved s =
     (containerID s \<noteq> '''' \<and>
      (\<exists>port. pm s FixedPort = Some [\<lparr>HostIP = ''localhost'', HostPort = port\<rparr>]))"

subsection \<open>Reading the requests\<close>

text \<open>The requests of \<open>n\<close> polls that did not find the marker.\<close>

definition polls :: "string \<Rightarrow> nat \<Rightarrow> call list" where
  "polls cid n = concat (replicate n [ContainerLogs cid, Sleep 500])"

fun isProvision :: "call \<Rightarrow> bool" where
  "isProvision (ImageList _) = True"
| "isProvision _ = False"

fun isCreate :: "call \<Rightarrow> bool" where
  "isCreate (ContainerCreate _ _ _) = True"
| "isCreate _ = False"

fun isStart :: "call \<Rightarrow> bool" where
  "isStart (ContainerStart _) = True"
| "isStart _ = False"

fun isStop :: "call \<Rightarrow> bool" where
  "isStop (ContainerStop _ _) = True"
| "isStop _ = False"

fun isLogs :: "call \<Rightarrow> bool" where
  "isLogs (ContainerLogs _) = True"
| "isLogs _ = False"

fun isInspect :: "call \<Rightarrow> bool" where
  "isInspect (ContainerInspect _) = True"
| "isInspect _ = False"

definition count :: "(call \<Rightarrow> bool) \<Rightarrow> call list \<Rightarrow> nat" where
  "count P tr = length (filter P tr)"

text \<open>The mount of the runtime's control socket.\<close>

definition socketMount :: Mount where
  "socketMount = \<lparr> Type = TypeBind, Source = ''/var/run/docker.sock'',
                    Target = ''/var/run/docker.sock'', ReadOnly = False \<rparr>"

text \<open>The read-only mount of one entry of \<open>volumeMounts\<close>.\<close>

definition bindMount :: "string \<times> string \<Rightarrow> Mount" where
  "bindMount e = \<lparr> Type = TypeBind, Source = snd e, Target = fst e, ReadOnly = True \<rparr>"

subsection \<open>Sample replies and states\<close>

text \<open>
  A runtime on which everything succeeds: the image is present, the container is created
  as \<open>c1\<close>, the marker is in the log at the first poll, and inspection reports host
  port 32768 for \<open>4566/tcp\<close>.
\<close>

definition dockerOK :: docker where
  "dockerOK = \<lparr> newClientWithOpts = None,
                imageList = Inr [[''localstack/localstack:3.0'']],
                imagePull = None, pullDrain = None,
                containerCreate = Inr ''c1'', containerStart = None,
                containerLogs = (\<lambda>k. LogContent ''LocalStack\<newline>Ready.''),
                since = (\<lambda>k. 0),
                containerInspect =
                  Inr [''4566/tcp'' \<mapsto> [\<lparr>HostIP = ''0.0.0.0'', HostPort = ''32768''\<rparr>]],
                containerStop = None \<rparr>"

text \<open>The controller after \<open>Start\<close> has succeeded on that runtime from \<open>New\<close>.\<close>

definition running :: Stack where
  "running = New\<lparr> cli := Some Client, containerID := ''c1'', started := True,
                  pm := [''4566/tcp'' \<mapsto> [\<lparr>HostIP = ''localhost'', HostPort = ''32768''\<rparr>]] \<rparr>"



text \<open>The requests of the successful \<open>Start\<close> that leads from \<open>New\<close> to \<open>running\<close>.\<close>

definition startCalls :: "call list" where
  "startCalls =
     [NewClientWithOpts, GoWatcher, ImageList ''localstack/localstack:3.0'',
      ContainerCreate '''' [socketMount]
        [''4566/tcp'' \<mapsto> [\<lparr>HostIP = ''0.0.0.0'', HostPort = ''''\<rparr>]],
      ContainerStart ''c1'', ContainerLogs ''c1'', ContainerInspect ''c1'']"

text \<open>A runtime on which the container is created but does not start.\<close>

definition dockerStartFails :: docker where
  "dockerStartFails = dockerOK\<lparr> containerStart := Some ''cannot start'' \<rparr>"

text \<open>The controller after \<open>Start\<close> has failed on that runtime from \<open>New\<close>, and the requests sent.\<close>

definition pending :: Stack where
  "pending = New\<lparr> cli := Some Client, containerID := ''c1'',
                  pm := [''4566/tcp'' \<mapsto> [\<lparr>HostIP = ''0.0.0.0'', HostPort = ''''\<rparr>]] \<rparr>"

definition pendingCalls :: "call list" where
  "pendingCalls =
     [NewClientWithOpts, GoWatcher, ImageList ''localstack/localstack:3.0'',
      ContainerCreate '''' [socketMount]
        [''4566/tcp'' \<mapsto> [\<lparr>HostIP = ''0.0.0.0'', HostPort = ''''\<rparr>]],
      ContainerStart ''c1'']"

text \<open>
  A runtime on which the name \<open>ls\<close> is taken, and two options. Modelled from the spec:
  the options are declared outside \<open>localstack.go\<close>; the spec lists one that sets the
  container name and one that sets the reuse flag.
\<close>

definition conflict :: string where
  "conflict = ''Conflict. The container name '' @ [CHR 0x22] @ ''ls'' @ [CHR 0x22]
                @ '' is already in use by container '' @ [CHR 0x22] @ ''4f1a'' @ [CHR 0x22]"

definition dockerNameTaken :: docker where
  "dockerNameTaken = dockerOK\<lparr> containerCreate := Inl conflict \<rparr>"

definition WithContainerName :: "string \<Rightarrow> Stack \<Rightarrow> Stack" where
  "WithContainerName name s = s\<lparr> containerName := name \<rparr>"

definition WithReuseExisting :: "bool \<Rightarrow> Stack \<Rightarrow> Stack" where
  "WithReuseExisting reuse s = s\<lparr> reuseExisting := reuse \<rparr>"

text \<open>A runtime on which creation fails for a reason that has nothing to do with the name.\<close>

definition dockerDiskFull :: docker where
  "dockerDiskFull = dockerOK\<lparr> containerCreate := Inl ''no space left on device'' \<rparr>"

text \<open>
  The option that sets the timeout, in seconds. Modelled from the spec: the option is declared
  outside \<open>localstack.go\<close>; the spec lists the init timeout in seconds among the settings
  that options write.
\<close>

definition WithInitTimeout :: "64 word \<Rightarrow> Stack \<Rightarrow> Stack" where
  "WithInitTimeout seconds s = s\<lparr> initTimeout := seconds \<rparr>"

text \<open>
  The controller that has created and started container \<open>c1\<close> with a timeout of
  9223372037 seconds and has not resolved the port.
\<close>

definition overflowed :: Stack where
  "overflowed = pending\<lparr> initTimeout := 9223372037 \<rparr>"

text \<open>A runtime whose log never shows the marker, however much time passes.\<close>

definition dockerNeverReady :: docker where
  "dockerNeverReady = dockerOK\<lparr> containerLogs := (\<lambda>k. LogContent ''booting''),
                                 since := (\<lambda>k. 1000000000 * word_of_nat k) \<rparr>"

text \<open>A runtime that fails to stop the container.\<close>

definition dockerStopFails :: docker where
  "dockerStopFails = dockerOK\<lparr> containerStop := Some ''cannot stop'' \<rparr>"

text \<open>A controller with two volume mounts.\<close>

definition mounting :: Stack where
  "mounting = New\<lparr> volumeMounts := [(''/etc/localstack/init'', ''/home/dev/init''),
                                       (''/data'', ''/tmp/data'')] \<rparr>"

section \<open>Facts about the readiness loop\<close>

lemma FixedPort_eq: "FixedPort = ''4566/tcp''"
  by (simp add: FixedPort_def Port_def)

lemma Contains_sublist: "Contains str substr = sublist substr str"
  by (induction str) (auto simp: sublist_Cons_right)

lemma polls_Suc: "polls cid (Suc n) = [ContainerLogs cid, Sleep 500] @ polls cid n"
  by (simp add: polls_def)

lemma waitLoop_step:
  "\<not> timedOut d s k \<Longrightarrow> \<not> initComplete d s k \<Longrightarrow>
   waitLoop d s k tr = waitLoop d s (Suc k) (tr @ [ContainerLogs (containerID s), Sleep 500])"
  by (subst waitLoop.simps) simp

lemma waitLoop_skip:
  "\<forall>j<n. \<not> timedOut d s (k + j) \<and> \<not> initComplete d s (k + j) \<Longrightarrow>
   waitLoop d s k tr = waitLoop d s (k + n) (tr @ polls (containerID s) n)"
proof (induction n arbitrary: k tr)
  case 0
  show ?case by (simp add: polls_def)
next
  case (Suc n)
  have "\<not> timedOut d s (k + 0) \<and> \<not> initComplete d s (k + 0)"
    using Suc.prems by blast
  then have a: "\<not> timedOut d s k" "\<not> initComplete d s k" by simp_all
  have b: "\<forall>j<n. \<not> timedOut d s (Suc k + j) \<and> \<not> initComplete d s (Suc k + j)"
  proof (intro allI impI)
    fix j assume "j < n"
    then have "Suc j < Suc n" by simp
    with Suc.prems have "\<not> timedOut d s (k + Suc j) \<and> \<not> initComplete d s (k + Suc j)"
      by blast
    then show "\<not> timedOut d s (Suc k + j) \<and> \<not> initComplete d s (Suc k + j)" by simp
  qed
  have "waitLoop d s k tr =
          waitLoop d s (Suc k) (tr @ [ContainerLogs (containerID s), Sleep 500])"
    using a by (rule waitLoop_step)
  also have "\<dots> = waitLoop d s (Suc k + n)
                     ((tr @ [ContainerLogs (containerID s), Sleep 500]) @ polls (containerID s) n)"
    using b by (rule Suc.IH)
  also have "\<dots> = waitLoop d s (k + Suc n) (tr @ polls (containerID s) (Suc n))"
    by (simp add: polls_Suc)
  finally show ?case .
qed

lemma waitLoop_Some:
  assumes "waitLoop d s k tr = Some y"
  shows "\<exists>n. (timedOut d s (k + n) \<or> initComplete d s (k + n)) \<and>
       (\<forall>j<n. \<not> timedOut d s (k + j) \<and> \<not> initComplete d s (k + j))"
  using assms
proof (induction rule: waitLoop.raw_induct [rotated 1, consumes 1])
  case (1 wl d s k tr y)
  show ?case
  proof (cases "timedOut d s k \<or> initComplete d s k")
    case True
    then have "(timedOut d s (k + 0) \<or> initComplete d s (k + 0)) \<and>
       (\<forall>j<0. \<not> timedOut d s (k + j) \<and> \<not> initComplete d s (k + j))" by simp
    then show ?thesis ..
  next
    case False
    then have nk: "\<not> timedOut d s k" "\<not> initComplete d s k" by simp_all
    from 1(2) nk
    have "wl d s (Suc k) (tr @ [ContainerLogs (containerID s), Sleep 500]) = Some y"
      by simp
    from 1(1) [OF this] obtain n where
      n1: "timedOut d s (Suc k + n) \<or> initComplete d s (Suc k + n)" and
      n2: "\<forall>j<n. \<not> timedOut d s (Suc k + j) \<and> \<not> initComplete d s (Suc k + j)"
      by blast
    have "\<forall>j<Suc n. \<not> timedOut d s (k + j) \<and> \<not> initComplete d s (k + j)"
    proof (intro allI impI)
      fix j assume j: "j < Suc n"
      show "\<not> timedOut d s (k + j) \<and> \<not> initComplete d s (k + j)"
      proof (cases j)
        case 0
        with nk show ?thesis by simp
      next
        case (Suc i)
        with j have "i < n" by simp
        with n2 have "\<not> timedOut d s (Suc k + i) \<and> \<not> initComplete d s (Suc k + i)"
          by blast
        with Suc show ?thesis by simp
      qed
    qed
    moreover from n1 have "timedOut d s (k + Suc n) \<or> initComplete d s (k + Suc n)"
      by simp
    ultimately show ?thesis by blast
  qed
qed

lemma waitLoop_timeout_at:
  assumes "timedOut d s (k + n)"
    and "\<forall>j<n. \<not> timedOut d s (k + j) \<and> \<not> initComplete d s (k + j)"
  shows "waitLoop d s k tr =
           Some (Some (InitTimeoutExceeded (initTimeout s)), tr @ polls (containerID s) n)"
proof -
  have "waitLoop d s k tr = waitLoop d s (k + n) (tr @ polls (containerID s) n)"
    by (rule waitLoop_skip) (simp add: assms(2))
  also have "\<dots> = Some (Some (InitTimeoutExceeded (initTimeout s)), tr @ polls (containerID s) n)"
    using assms(1) by (subst waitLoop.simps) simp
  finally show ?thesis .
qed

lemma waitLoop_ready_at:
  assumes "\<not> timedOut d s (k + n)" and "initComplete d s (k + n)"
    and "\<forall>j<n. \<not> timedOut d s (k + j) \<and> \<not> initComplete d s (k + j)"
  shows "waitLoop d s k tr =
           Some (None, tr @ polls (containerID s) n @ [ContainerLogs (containerID s)])"
proof -
  have "waitLoop d s k tr = waitLoop d s (k + n) (tr @ polls (containerID s) n)"
    by (rule waitLoop_skip) (simp add: assms(3))
  also have "\<dots> = Some (None, tr @ polls (containerID s) n @ [ContainerLogs (containerID s)])"
    using assms(1,2) by (subst waitLoop.simps) simp
  finally show ?thesis .
qed

lemma waitLoop_None:
  assumes "\<forall>n. \<not> timedOut d s (k + n) \<and> \<not> initComplete d s (k + n)"
  shows "waitLoop d s k tr = None"
proof (cases "waitLoop d s k tr")
  case None
  then show ?thesis .
next
  case (Some y)
  from waitLoop_Some [OF this] assms show ?thesis by blast
qed

lemma initComplete_iff:
  "initComplete d s k \<longleftrightarrow>
     (\<exists>logContent. containerLogs d k = LogContent logContent \<and>
        sublist (if initCompleteLogLine s = '''' then ''Ready.'' else initCompleteLogLine s)
          logContent)"
  by (cases "containerLogs d k") (simp_all add: initComplete_def Contains_sublist)

text \<open>
  The readiness loop in terms of the bound that the code computes, the 64-bit product
  \<open>time.Duration(initTimeout) * time.Second\<close>: the loop ends with an error exactly when
  \<open>initTimeout\<close> is positive and some test finds the elapsed time above that product while
  no earlier poll has seen the marker. A poll reports ready exactly when the log snapshot was
  fetched and read and contains the marker; a failure to fetch or to read counts as not ready.
\<close>

lemma waitLoop_error_iff:
  "((\<exists>tr'. waitLoop d s 0 tr = Some (Some err, tr')) \<longleftrightarrow>
      0 <s initTimeout s \<and> err = InitTimeoutExceeded (initTimeout s) \<and>
      (\<exists>n. (initTimeout s * 1000000000) <s since d n \<and>
           (\<forall>j<n. \<not> (initTimeout s * 1000000000) <s since d j \<and> \<not> initComplete d s j)))
   \<and> (initComplete d s k \<longleftrightarrow>
        (\<exists>logContent. containerLogs d k = LogContent logContent \<and>
           sublist (if initCompleteLogLine s = '''' then ''Ready.'' else initCompleteLogLine s)
             logContent))
   \<and> (containerLogs d k = LogsError e \<or> containerLogs d k = ReadError e
        \<longrightarrow> \<not> initComplete d s k)"
proof (intro conjI)
  show "(\<exists>tr'. waitLoop d s 0 tr = Some (Some err, tr')) \<longleftrightarrow>
      0 <s initTimeout s \<and> err = InitTimeoutExceeded (initTimeout s) \<and>
      (\<exists>n. (initTimeout s * 1000000000) <s since d n \<and>
           (\<forall>j<n. \<not> (initTimeout s * 1000000000) <s since d j \<and> \<not> initComplete d s j))"
    (is "?L \<longleftrightarrow> ?R")
  proof
    assume ?L
    then obtain tr' where r: "waitLoop d s 0 tr = Some (Some err, tr')" by blast
    from waitLoop_Some [OF r] obtain n where
      n: "timedOut d s n \<or> initComplete d s n"
         "\<forall>j<n. \<not> timedOut d s (0 + j) \<and> \<not> initComplete d s (0 + j)"
      by auto
    have t: "timedOut d s n"
    proof (rule ccontr)
      assume nt: "\<not> timedOut d s n"
      with n(1) have "initComplete d s n" by simp
      from waitLoop_ready_at [of d s 0 n, OF _ _ n(2)] nt this r show False by simp
    qed
    from waitLoop_timeout_at [of d s 0 n, OF _ n(2)] t r
    have "err = InitTimeoutExceeded (initTimeout s)" by simp
    moreover from t have p: "0 <s initTimeout s" "(initTimeout s * 1000000000) <s since d n"
      by (simp_all add: timedOut_def)
    moreover have "\<forall>j<n. \<not> (initTimeout s * 1000000000) <s since d j \<and> \<not> initComplete d s j"
      using n(2) p(1) by (simp add: timedOut_def)
    ultimately show ?R by blast
  next
    assume ?R
    then obtain n where p: "0 <s initTimeout s" "err = InitTimeoutExceeded (initTimeout s)"
      "(initTimeout s * 1000000000) <s since d n"
      "\<forall>j<n. \<not> (initTimeout s * 1000000000) <s since d j \<and> \<not> initComplete d s j"
      by blast
    have "waitLoop d s 0 tr =
            Some (Some (InitTimeoutExceeded (initTimeout s)), tr @ polls (containerID s) n)"
      using p by (intro waitLoop_timeout_at) (simp_all add: timedOut_def)
    with p(2) show ?L by simp
  qed
next
  show "initComplete d s k \<longleftrightarrow>
        (\<exists>logContent. containerLogs d k = LogContent logContent \<and>
           sublist (if initCompleteLogLine s = '''' then ''Ready.'' else initCompleteLogLine s)
             logContent)"
    by (rule initComplete_iff)
next
  show "containerLogs d k = LogsError e \<or> containerLogs d k = ReadError e
        \<longrightarrow> \<not> initComplete d s k"
    by (auto simp: initComplete_def)
qed


text \<open>
  For a timeout of at most 9223372036 seconds the product does not wrap: the bound is
  \<open>initTimeout\<close> seconds in nanoseconds.
\<close>

lemma bound_exact:
  assumes "0 <s (T :: 64 word)" and "sint T \<le> 9223372036"
  shows "sint (T * 1000000000) = sint T * 1000000000"
proof -
  have p: "0 < sint T" using assms(1) by (simp add: word_sless_alt)
  have "sint T * 1000000000 \<le> 9223372036 * 1000000000" using assms(2) by simp
  then have a: "sint T * 1000000000 < 2 ^ 63" by simp
  have b: "- (2 ^ 63) \<le> sint T * 1000000000" using p by simp
  have "signed_take_bit 63 (sint T * 1000000000) = sint T * 1000000000"
    using a b by (simp add: signed_take_bit_int_eq_self)
  then show ?thesis by (simp add: sint_word_ariths)
qed

section \<open>The mount list\<close>

lemma getVolumeMounts_eq:
  "getVolumeMounts s = map bindMount (volumeMounts s) @ [socketMount]"
  by (simp add: getVolumeMounts_def bindMount_def socketMount_def case_prod_beta)

text \<open>
  Claim C7. For a \<open>volumeMounts\<close> map with \<open>N\<close> entries the mount list has \<open>N + 1\<close>
  entries: the \<open>i\<close>-th is the read-only bind mount of the \<open>i\<close>-th pair visited, with the
  host path as source and the container path as target, and the last one is the bind mount
  of \<open>/var/run/docker.sock\<close> onto itself, which is the only entry that is not read-only.
\<close>

theorem getVolumeMounts_composition:
  "length (getVolumeMounts s) = length (volumeMounts s) + 1
   \<and> (distinct (map fst (volumeMounts s)) \<longrightarrow>
        length (getVolumeMounts s) = card (dom (map_of (volumeMounts s))) + 1)
   \<and> (\<forall>i < length (volumeMounts s).
        getVolumeMounts s ! i =
          \<lparr> Type = TypeBind, Source = snd (volumeMounts s ! i),
            Target = fst (volumeMounts s ! i), ReadOnly = True \<rparr>)
   \<and> getVolumeMounts s ! length (volumeMounts s) =
        \<lparr> Type = TypeBind, Source = ''/var/run/docker.sock'',
          Target = ''/var/run/docker.sock'', ReadOnly = False \<rparr>
   \<and> filter (\<lambda>m. \<not> ReadOnly m) (getVolumeMounts s) = [socketMount]"
proof (intro conjI)
  show "length (getVolumeMounts s) = length (volumeMounts s) + 1"
    by (simp add: getVolumeMounts_eq)
  show "distinct (map fst (volumeMounts s)) \<longrightarrow>
        length (getVolumeMounts s) = card (dom (map_of (volumeMounts s))) + 1"
  proof
    assume d: "distinct (map fst (volumeMounts s))"
    have "card (dom (map_of (volumeMounts s))) = card (set (map fst (volumeMounts s)))"
      by (simp add: dom_map_of_conv_image_fst)
    also have "\<dots> = length (map fst (volumeMounts s))"
      using d by (rule distinct_card)
    finally show "length (getVolumeMounts s) = card (dom (map_of (volumeMounts s))) + 1"
      by (simp add: getVolumeMounts_eq)
  qed
  show "\<forall>i < length (volumeMounts s).
        getVolumeMounts s ! i =
          \<lparr> Type = TypeBind, Source = snd (volumeMounts s ! i),
            Target = fst (volumeMounts s ! i), ReadOnly = True \<rparr>"
    by (simp add: getVolumeMounts_eq nth_append bindMount_def)
  show "getVolumeMounts s ! length (volumeMounts s) =
        \<lparr> Type = TypeBind, Source = ''/var/run/docker.sock'',
          Target = ''/var/run/docker.sock'', ReadOnly = False \<rparr>"
    by (simp add: getVolumeMounts_eq nth_append socketMount_def)
  have "filter (\<lambda>m. \<not> ReadOnly m) (map bindMount (volumeMounts s)) = []"
    by (simp add: filter_empty_conv bindMount_def)
  then show "filter (\<lambda>m. \<not> ReadOnly m) (getVolumeMounts s) = [socketMount]"
    by (simp add: getVolumeMounts_eq socketMount_def)
qed

theorem getVolumeMounts_composition_witness:
  "distinct (map fst (volumeMounts mounting))
   \<and> length (getVolumeMounts mounting) = 3
   \<and> card (dom (map_of (volumeMounts mounting))) = 2
   \<and> getVolumeMounts mounting ! 1 =
        \<lparr> Type = TypeBind, Source = ''/tmp/data'', Target = ''/data'', ReadOnly = True \<rparr>
   \<and> getVolumeMounts mounting ! 2 = socketMount"
proof -
  have v: "volumeMounts mounting =
             [(''/etc/localstack/init'', ''/home/dev/init''), (''/data'', ''/tmp/data'')]"
    by (simp add: mounting_def New_def)
  have n: "length (volumeMounts mounting) = 2" by (simp add: v)
  have d: "distinct (map fst (volumeMounts mounting))" by (simp add: v)
  note c = getVolumeMounts_composition [of mounting]
  have l: "length (getVolumeMounts mounting) = 3"
    using c [THEN conjunct1] by (simp add: n)
  have "length (getVolumeMounts mounting) = card (dom (map_of (volumeMounts mounting))) + 1"
    using d by (rule c [THEN conjunct2, THEN conjunct1, rule_format])
  with l have k: "card (dom (map_of (volumeMounts mounting))) = 2" by simp
  have "1 < length (volumeMounts mounting)" by (simp add: n)
  then have "getVolumeMounts mounting ! 1 =
          \<lparr> Type = TypeBind, Source = snd (volumeMounts mounting ! 1),
            Target = fst (volumeMounts mounting ! 1), ReadOnly = True \<rparr>"
    by (rule c [THEN conjunct2, THEN conjunct2, THEN conjunct1, rule_format])
  then have m1: "getVolumeMounts mounting ! 1 =
        \<lparr> Type = TypeBind, Source = ''/tmp/data'', Target = ''/data'', ReadOnly = True \<rparr>"
    by (simp add: v)
  have "getVolumeMounts mounting ! length (volumeMounts mounting) = socketMount"
    using c [THEN conjunct2, THEN conjunct2, THEN conjunct2, THEN conjunct1]
    by (simp only: socketMount_def)
  then have m2: "getVolumeMounts mounting ! 2 = socketMount" by (simp only: n)
  from d l k m1 m2 show ?thesis by (intro conjI)
qed


section \<open>The lock and stopping\<close>

lemma Unlock_free: "\<not> mu s \<Longrightarrow> s\<lparr>mu := False\<rparr> = s"
  by (cases s) simp

lemma stop_idle:
  "\<not> started s \<or> containerID s = '''' \<Longrightarrow> stop d s = (Returned None, s, [])"
  by (simp add: stop_def)

lemma stop_ok:
  "started s \<Longrightarrow> containerID s \<noteq> '''' \<Longrightarrow> cli s = Some c \<Longrightarrow> containerStop d = None \<Longrightarrow>
   stop d s = (Returned None, s\<lparr>containerID := '''', started := False\<rparr>,
               [ContainerStop (containerID s) 10])"
  by (simp add: stop_def)

lemma stop_fails:
  "started s \<Longrightarrow> containerID s \<noteq> '''' \<Longrightarrow> cli s = Some c \<Longrightarrow> containerStop d = Some err \<Longrightarrow>
   stop d s = (Returned (Some (E err)), s, [ContainerStop (containerID s) 10])"
  by (simp add: stop_def)

lemma Stop_locked: "mu s \<Longrightarrow> Stop d s = None"
  by (simp add: Stop_def Lock_def)

lemma Stop_free:
  "\<not> mu s \<Longrightarrow>
   Stop d s = (case stop d (s\<lparr>mu := True\<rparr>) of (r, s2, tr) \<Rightarrow> Some (r, s2\<lparr>mu := False\<rparr>, tr))"
  by (simp add: Stop_def Lock_def Unlock_def)

lemma Stop_idle:
  assumes f: "\<not> mu s" and i: "\<not> started s \<or> containerID s = ''''"
  shows "Stop d s = Some (Returned None, s, [])"
proof -
  from i have "stop d (s\<lparr>mu := True\<rparr>) = (Returned None, s\<lparr>mu := True\<rparr>, [])"
    by (intro stop_idle) simp
  with f show ?thesis by (simp add: Stop_free Unlock_free)
qed

lemma Stop_ok:
  assumes f: "\<not> mu s" and s: "started s" and i: "containerID s \<noteq> ''''"
    and c: "cli s = Some c" and r: "containerStop d = None"
  shows "Stop d s = Some (Returned None, s\<lparr>containerID := '''', started := False\<rparr>,
                          [ContainerStop (containerID s) 10])"
proof -
  have "stop d (s\<lparr>mu := True\<rparr>) =
          (Returned None, s\<lparr>mu := True\<rparr>\<lparr>containerID := '''', started := False\<rparr>,
           [ContainerStop (containerID (s\<lparr>mu := True\<rparr>)) 10])"
    using s i c r by (intro stop_ok [where c = c]) simp_all
  moreover have "s\<lparr>mu := True\<rparr>\<lparr>containerID := '''', started := False\<rparr>\<lparr>mu := False\<rparr>
                 = s\<lparr>containerID := '''', started := False\<rparr>"
    using f by (cases s) simp
  ultimately show ?thesis using f by (simp add: Stop_free)
qed

lemma Stop_fails:
  assumes f: "\<not> mu s" and s: "started s" and i: "containerID s \<noteq> ''''"
    and c: "cli s = Some c" and r: "containerStop d = Some err"
  shows "Stop d s = Some (Returned (Some (E err)), s, [ContainerStop (containerID s) 10])"
proof -
  have "stop d (s\<lparr>mu := True\<rparr>) =
          (Returned (Some (E err)), s\<lparr>mu := True\<rparr>,
           [ContainerStop (containerID (s\<lparr>mu := True\<rparr>)) 10])"
    using s i c r by (intro stop_fails [where c = c]) simp_all
  with f show ?thesis by (simp add: Stop_free Unlock_free)
qed

text \<open>
  Claim C5. With the lock free, \<open>Stop\<close> returns nil, sends nothing and leaves the controller
  as it is when \<open>started\<close> is false or \<open>containerID\<close> is empty. When a container is owned
  (and the client is set, as it is once \<open>Start\<close> has run), \<open>Stop\<close> sends exactly one
  \<open>ContainerStop\<close> for that container with a timeout of 10 seconds; if the runtime
  accepts it, \<open>containerID\<close> becomes empty and \<open>started\<close> false; if the runtime refuses
  it, \<open>Stop\<close> returns that error and the controller is as before.
\<close>

theorem Stop_contract:
  "\<not> mu s \<Longrightarrow>
   ((\<not> started s \<or> containerID s = '''') \<longrightarrow> Stop d s = Some (Returned None, s, []))
   \<and> (started s \<and> containerID s \<noteq> '''' \<and> cli s = Some c \<and> containerStop d = None \<longrightarrow>
        Stop d s = Some (Returned None, s\<lparr>containerID := '''', started := False\<rparr>,
                         [ContainerStop (containerID s) 10]))
   \<and> (started s \<and> containerID s \<noteq> '''' \<and> cli s = Some c \<and> containerStop d = Some err \<longrightarrow>
        Stop d s = Some (Returned (Some (E err)), s, [ContainerStop (containerID s) 10]))"
  by (simp add: Stop_idle Stop_ok Stop_fails)

lemma running_fields:
  "\<not> mu running" "started running" "containerID running = ''c1''" "cli running = Some Client"
  by (simp_all add: running_def New_def)

lemma New_fields:
  "\<not> mu New" "\<not> started New" "containerID New = ''''" "cli New = None"
  by (simp_all add: New_def)

theorem Stop_contract_witness:
  "Stop dockerOK New = Some (Returned None, New, [])
   \<and> Stop dockerOK running =
       Some (Returned None, running\<lparr>containerID := '''', started := False\<rparr>,
             [ContainerStop ''c1'' 10])
   \<and> Stop dockerStopFails running =
       Some (Returned (Some (E ''cannot stop'')), running, [ContainerStop ''c1'' 10])"
proof (intro conjI)
  have "\<not> started New \<or> containerID New = ''''" by (simp add: New_fields)
  then show "Stop dockerOK New = Some (Returned None, New, [])"
    by (rule Stop_contract [OF New_fields(1), THEN conjunct1, rule_format])
  have "started running \<and> containerID running \<noteq> '''' \<and> cli running = Some Client \<and>
        containerStop dockerOK = None"
    by (simp add: running_fields dockerOK_def)
  then have "Stop dockerOK running =
       Some (Returned None, running\<lparr>containerID := '''', started := False\<rparr>,
             [ContainerStop (containerID running) 10])"
    by (rule Stop_contract [OF running_fields(1), THEN conjunct2, THEN conjunct1, rule_format])
  then show "Stop dockerOK running =
       Some (Returned None, running\<lparr>containerID := '''', started := False\<rparr>,
             [ContainerStop ''c1'' 10])"
    by (simp only: running_fields)
  have "started running \<and> containerID running \<noteq> '''' \<and> cli running = Some Client \<and>
        containerStop dockerStopFails = Some ''cannot stop''"
    by (simp add: running_fields dockerStopFails_def)
  then have "Stop dockerStopFails running =
       Some (Returned (Some (E ''cannot stop'')), running,
             [ContainerStop (containerID running) 10])"
    by (rule Stop_contract [OF running_fields(1), THEN conjunct2, THEN conjunct2, rule_format])
  then show "Stop dockerStopFails running =
       Some (Returned (Some (E ''cannot stop'')), running, [ContainerStop ''c1'' 10])"
    by (simp only: running_fields)
qed

section \<open>Start on a started controller\<close>

lemma Start_noop:
  "started s \<Longrightarrow> \<not> mu s \<Longrightarrow> Start False opts d s = Some (Returned None, s, [])"
  by (simp add: Start_def Lock_def Unlock_def Unlock_free)

lemma Start_restart_None:
  "started s \<Longrightarrow> Start True opts d s = None"
  by (simp add: Start_def Lock_def Stop_locked)

text \<open>
  Claim C2. The claim is that \<open>Start(true)\<close> on a started controller stops the container
  and then either returns the error of the stop or creates and starts a fresh container.
  The code does neither: \<open>Start\<close> holds the lock and calls the exported \<open>Stop\<close>, which
  asks for the same lock, so the call never returns and sends no request.
\<close>

theorem Start_forceRestart_blocks:
  "started s \<Longrightarrow> Start True opts d s = None"
  by (rule Start_restart_None)

theorem Start_forceRestart_blocks_witness:
  "started running \<and> Start True [] dockerOK running = None"
  using Start_forceRestart_blocks [of running "[]" dockerOK] by (simp add: running_fields)

section \<open>Counting requests\<close>

lemma count_append: "count P (xs @ ys) = count P xs + count P ys"
  by (simp add: count_def)

lemma count_Cons: "count P (x # xs) = (if P x then 1 else 0) + count P xs"
  by (simp add: count_def)

lemma count_Nil: "count P [] = 0"
  by (simp add: count_def)

lemma count_polls:
  "count isProvision (polls c n) = 0" "count isCreate (polls c n) = 0"
  "count isStart (polls c n) = 0" "count isStop (polls c n) = 0"
  "count isInspect (polls c n) = 0" "count isLogs (polls c n) = n"
  by (induction n) (simp_all add: polls_Suc count_Cons count_Nil, simp_all add: polls_def count_def)

lemma ensureImage_calls:
  "ensureImage d n = (r, tr) \<Longrightarrow> tr = [ImageList n] \<or> tr = [ImageList n, ImagePull n]"
  by (auto simp: ensureImage_def split: sum.splits if_splits option.splits)

lemma waitLoop_result:
  assumes "waitLoop d s k tr = Some y"
  shows "\<exists>n. (\<forall>j<n. \<not> timedOut d s (k + j) \<and> \<not> initComplete d s (k + j)) \<and>
           (if timedOut d s (k + n)
            then y = (Some (InitTimeoutExceeded (initTimeout s)), tr @ polls (containerID s) n)
            else initComplete d s (k + n) \<and>
                 y = (None, tr @ polls (containerID s) n @ [ContainerLogs (containerID s)]))"
proof -
  from waitLoop_Some [OF assms] obtain n where
    n1: "timedOut d s (k + n) \<or> initComplete d s (k + n)" and
    n2: "\<forall>j<n. \<not> timedOut d s (k + j) \<and> \<not> initComplete d s (k + j)"
    by blast
  show ?thesis
  proof (cases "timedOut d s (k + n)")
    case True
    from waitLoop_timeout_at [OF True n2, of tr] assms
    have "y = (Some (InitTimeoutExceeded (initTimeout s)), tr @ polls (containerID s) n)"
      by simp
    with True n2 show ?thesis by (intro exI [of _ n]) simp
  next
    case False
    with n1 have i: "initComplete d s (k + n)" by simp
    from waitLoop_ready_at [OF False i n2, of tr] assms
    have "y = (None, tr @ polls (containerID s) n @ [ContainerLogs (containerID s)])"
      by simp
    with False i n2 show ?thesis by (intro exI [of _ n]) simp
  qed
qed

section \<open>The start sequence\<close>

lemma resolvePort_started:
  assumes "resolvePort d s tr = (r, s', tr')" and "\<not> started s" and "started s'"
  shows "r = Returned None \<and> tr' = tr @ [ContainerInspect (containerID s)] \<and>
         (\<exists>ports b bs. containerInspect d = Inr ports \<and> ports FixedPort = Some (b # bs) \<and>
            s' = s\<lparr>pm := (pm s)(FixedPort \<mapsto> [\<lparr>HostIP = ''localhost'', HostPort = HostPort b\<rparr>]),
                   started := True\<rparr>)"
  using assms
  by (auto simp: resolvePort_def split: sum.splits option.splits list.splits)

lemma resolvePort_not_started:
  assumes "resolvePort d s tr = (r, s', tr')" and "\<not> started s'"
  shows "s' = s \<and> r \<noteq> Returned None \<and> tr' = tr @ [ContainerInspect (containerID s)]"
  using assms
  by (auto simp: resolvePort_def split: sum.splits option.splits list.splits)


lemma frame_pm:
  "nameInUse (s\<lparr>pm := p\<rparr>) = nameInUse s"
  "getVolumeMounts (s\<lparr>pm := p\<rparr>) = getVolumeMounts s"
  by (simp_all add: nameInUse_def getVolumeMounts_def)

lemma start_ensure_fails:
  "ensureImage d LocalStackImage = (Some err, tr1) \<Longrightarrow>
   start d s0 =
     Some (Returned (Some err),
           s0\<lparr>pm := (pm s0)(FixedPort \<mapsto> [\<lparr>HostIP = ''0.0.0.0'', HostPort = ''''\<rparr>])\<rparr>,
           GoWatcher # tr1)"
  by (simp add: start_def)

lemma start_create_fails:
  "ensureImage d LocalStackImage = (None, tr1) \<Longrightarrow> containerCreate d = Inl err \<Longrightarrow>
   start d s0 =
     Some (if reuseExisting s0 \<and> Contains err (nameInUse s0) then Returned None
           else Returned (Some (CouldNotCreate err)),
           s0\<lparr>pm := (pm s0)(FixedPort \<mapsto> [\<lparr>HostIP = ''0.0.0.0'', HostPort = ''''\<rparr>])\<rparr>,
           GoWatcher # tr1 @
             [ContainerCreate (containerName s0) (getVolumeMounts s0)
                ((pm s0)(FixedPort \<mapsto> [\<lparr>HostIP = ''0.0.0.0'', HostPort = ''''\<rparr>]))])"
  by (simp add: start_def frame_pm Let_def)

lemma start_start_fails:
  "ensureImage d LocalStackImage = (None, tr1) \<Longrightarrow> containerCreate d = Inr ID \<Longrightarrow>
   containerStart d = Some err \<Longrightarrow>
   start d s0 =
     Some (Returned (Some (E err)),
           s0\<lparr>pm := (pm s0)(FixedPort \<mapsto> [\<lparr>HostIP = ''0.0.0.0'', HostPort = ''''\<rparr>]),
              containerID := ID\<rparr>,
           GoWatcher # tr1 @
             [ContainerCreate (containerName s0) (getVolumeMounts s0)
                ((pm s0)(FixedPort \<mapsto> [\<lparr>HostIP = ''0.0.0.0'', HostPort = ''''\<rparr>])),
              ContainerStart ID])"
  by (simp add: start_def frame_pm Let_def)

lemma start_runs:
  "ensureImage d LocalStackImage = (None, tr1) \<Longrightarrow> containerCreate d = Inr ID \<Longrightarrow>
   containerStart d = None \<Longrightarrow>
   s2 = s0\<lparr>pm := (pm s0)(FixedPort \<mapsto> [\<lparr>HostIP = ''0.0.0.0'', HostPort = ''''\<rparr>]),
           containerID := ID\<rparr> \<Longrightarrow>
   tr3 = GoWatcher # tr1 @
             [ContainerCreate (containerName s0) (getVolumeMounts s0)
                ((pm s0)(FixedPort \<mapsto> [\<lparr>HostIP = ''0.0.0.0'', HostPort = ''''\<rparr>])),
              ContainerStart ID] \<Longrightarrow>
   start d s0 =
     (if waitForInit s0 then
        (case waitLoop d s2 0 tr3 of
           None \<Rightarrow> None
         | Some (Some err, tr4) \<Rightarrow> Some (Returned (Some err), s2, tr4)
         | Some (None, tr4) \<Rightarrow> Some (resolvePort d s2 tr4))
      else Some (resolvePort d s2 tr3))"
  by (clarsimp simp: start_def frame_pm Let_def)


lemma start_after_create:
  assumes e: "ensureImage d LocalStackImage = (None, tr1)"
    and c: "containerCreate d = Inr ID"
    and cs: "containerStart d = None"
    and s2: "s2 = s0\<lparr>pm := (pm s0)(FixedPort \<mapsto> [\<lparr>HostIP = ''0.0.0.0'', HostPort = ''''\<rparr>]),
                     containerID := ID\<rparr>"
    and tr3: "tr3 = GoWatcher # tr1 @
             [ContainerCreate (containerName s0) (getVolumeMounts s0)
                ((pm s0)(FixedPort \<mapsto> [\<lparr>HostIP = ''0.0.0.0'', HostPort = ''''\<rparr>])),
              ContainerStart ID]"
    and st: "start d s0 = Some (r, s1, tr)"
  shows "\<exists>n. (waitForInit s0 \<and> r = Returned (Some (InitTimeoutExceeded (initTimeout s0))) \<and>
              s1 = s2 \<and> tr = tr3 @ polls ID n)
           \<or> (r, s1, tr) =
               resolvePort d s2
                 (tr3 @ (if waitForInit s0 then polls ID n @ [ContainerLogs ID] else []))"
proof (cases "waitForInit s0")
  case False
  with st start_runs [OF e c cs s2 tr3] have "(r, s1, tr) = resolvePort d s2 tr3" by simp
  with False show ?thesis by simp
next
  case True
  note run = start_runs [OF e c cs s2 tr3]
  show ?thesis
  proof (cases "waitLoop d s2 0 tr3")
    case None
    with run True st show ?thesis by simp
  next
    case (Some y)
    have id: "containerID s2 = ID" and to: "initTimeout s2 = initTimeout s0"
      by (simp_all add: s2)
    from waitLoop_result [OF Some] obtain n where
      n: "if timedOut d s2 (0 + n)
          then y = (Some (InitTimeoutExceeded (initTimeout s2)), tr3 @ polls (containerID s2) n)
          else initComplete d s2 (0 + n) \<and>
               y = (None, tr3 @ polls (containerID s2) n @ [ContainerLogs (containerID s2)])"
      by blast
    show ?thesis
    proof (cases "timedOut d s2 (0 + n)")
      case t: True
      with n have "y = (Some (InitTimeoutExceeded (initTimeout s0)), tr3 @ polls ID n)"
        by (simp add: id to)
      with run True st Some
      have "r = Returned (Some (InitTimeoutExceeded (initTimeout s0))) \<and> s1 = s2 \<and>
            tr = tr3 @ polls ID n"
        by simp
      with True show ?thesis by blast
    next
      case f: False
      with n have "y = (None, tr3 @ polls ID n @ [ContainerLogs ID])"
        by (simp add: id)
      with run True st Some
      have "(r, s1, tr) = resolvePort d s2 (tr3 @ polls ID n @ [ContainerLogs ID])"
        by simp
      with True show ?thesis by auto
    qed
  qed
qed


lemma count_tr1:
  assumes "ensureImage d n = (r, tr1)"
  shows "count isProvision tr1 = 1" "count isCreate tr1 = 0" "count isStart tr1 = 0"
    "count isInspect tr1 = 0" "count isStop tr1 = 0" "count isLogs tr1 = 0"
  using ensureImage_calls [OF assms] by (auto simp: count_def)

lemma start_started:
  assumes st: "start d s0 = Some (r, s1, tr)" and ns: "\<not> started s0" and s: "started s1"
  shows "r = Returned None \<and>
         (\<exists>ID ports b bs. containerCreate d = Inr ID \<and> containerInspect d = Inr ports \<and>
            ports FixedPort = Some (b # bs) \<and>
            s1 = s0\<lparr>pm := (pm s0)(FixedPort \<mapsto> [\<lparr>HostIP = ''localhost'', HostPort = HostPort b\<rparr>]),
                    containerID := ID, started := True\<rparr>) \<and>
         count isProvision tr = 1 \<and> count isCreate tr = 1 \<and> count isStart tr = 1 \<and>
         count isInspect tr = 1 \<and> count isStop tr = 0"
proof -
  obtain eo tr1 where e: "ensureImage d LocalStackImage = (eo, tr1)"
    by (cases "ensureImage d LocalStackImage") blast
  show ?thesis
  proof (cases eo)
    case (Some err)
    from start_ensure_fails [OF e [unfolded Some], of s0] st ns s show ?thesis by auto
  next
    case None
    note e' = e [unfolded None]
    show ?thesis
    proof (cases "containerCreate d")
      case (Inl err)
      from start_create_fails [OF e' Inl, of s0] st ns s show ?thesis by auto
    next
      case (Inr ID)
      show ?thesis
      proof (cases "containerStart d")
        case (Some err)
        from start_start_fails [OF e' Inr Some, of s0] st ns s show ?thesis by auto
      next
        case None
        define s2 where "s2 = s0\<lparr>pm := (pm s0)(FixedPort \<mapsto> [\<lparr>HostIP = ''0.0.0.0'', HostPort = ''''\<rparr>]),
                     containerID := ID\<rparr>"
        define tr3 where "tr3 = GoWatcher # tr1 @
             [ContainerCreate (containerName s0) (getVolumeMounts s0)
                ((pm s0)(FixedPort \<mapsto> [\<lparr>HostIP = ''0.0.0.0'', HostPort = ''''\<rparr>])),
              ContainerStart ID]"
        have ns2: "\<not> started s2" using ns by (simp add: s2_def)
        from start_after_create [OF e' Inr None s2_def tr3_def st] obtain n where
          n: "(waitForInit s0 \<and> r = Returned (Some (InitTimeoutExceeded (initTimeout s0))) \<and>
               s1 = s2 \<and> tr = tr3 @ polls ID n)
              \<or> (r, s1, tr) =
                 resolvePort d s2
                   (tr3 @ (if waitForInit s0 then polls ID n @ [ContainerLogs ID] else []))"
          by blast
        with s ns2 have rp: "resolvePort d s2
                   (tr3 @ (if waitForInit s0 then polls ID n @ [ContainerLogs ID] else []))
                 = (r, s1, tr)"
          by auto
        from resolvePort_started [OF rp ns2 s] obtain ports b bs where
          r: "r = Returned None" and
          t: "tr = (tr3 @ (if waitForInit s0 then polls ID n @ [ContainerLogs ID] else []))
                     @ [ContainerInspect (containerID s2)]" and
          i: "containerInspect d = Inr ports" "ports FixedPort = Some (b # bs)" and
          s1: "s1 = s2\<lparr>pm := (pm s2)(FixedPort \<mapsto> [\<lparr>HostIP = ''localhost'', HostPort = HostPort b\<rparr>]),
                        started := True\<rparr>"
          by blast
        have s1': "s1 = s0\<lparr>pm := (pm s0)(FixedPort \<mapsto> [\<lparr>HostIP = ''localhost'', HostPort = HostPort b\<rparr>]),
                    containerID := ID, started := True\<rparr>"
          by (simp add: s1 s2_def)
        have cnt: "count isProvision tr = 1 \<and> count isCreate tr = 1 \<and> count isStart tr = 1 \<and>
                   count isInspect tr = 1 \<and> count isStop tr = 0"
          by (simp add: t tr3_def count_append count_Cons count_Nil count_polls count_tr1 [OF e'])
        from r Inr i s1' cnt show ?thesis by blast
      qed
    qed
  qed
qed

lemma start_pending:
  assumes st: "start d s0 = Some (r, s1, tr)" and ns: "\<not> started s1"
    and e: "ensureImage d LocalStackImage = (None, tr1)"
    and c: "containerCreate d = Inr ID"
  shows "s1 = s0\<lparr>pm := (pm s0)(FixedPort \<mapsto> [\<lparr>HostIP = ''0.0.0.0'', HostPort = ''''\<rparr>]),
                 containerID := ID\<rparr> \<and> r \<noteq> Returned None"
proof (cases "containerStart d")
  case (Some err)
  from start_start_fails [OF e c Some, of s0] st show ?thesis by simp
next
  case None
  define s2 where "s2 = s0\<lparr>pm := (pm s0)(FixedPort \<mapsto> [\<lparr>HostIP = ''0.0.0.0'', HostPort = ''''\<rparr>]),
                     containerID := ID\<rparr>"
  define tr3 where "tr3 = GoWatcher # tr1 @
             [ContainerCreate (containerName s0) (getVolumeMounts s0)
                ((pm s0)(FixedPort \<mapsto> [\<lparr>HostIP = ''0.0.0.0'', HostPort = ''''\<rparr>])),
              ContainerStart ID]"
  from start_after_create [OF e c None s2_def tr3_def st] obtain n where
    n: "(waitForInit s0 \<and> r = Returned (Some (InitTimeoutExceeded (initTimeout s0))) \<and>
               s1 = s2 \<and> tr = tr3 @ polls ID n)
              \<or> (r, s1, tr) =
                 resolvePort d s2
                   (tr3 @ (if waitForInit s0 then polls ID n @ [ContainerLogs ID] else []))"
    by blast
  then show ?thesis
  proof
    assume "waitForInit s0 \<and> r = Returned (Some (InitTimeoutExceeded (initTimeout s0))) \<and>
               s1 = s2 \<and> tr = tr3 @ polls ID n"
    then show ?thesis by (simp add: s2_def)
  next
    assume "(r, s1, tr) =
                 resolvePort d s2
                   (tr3 @ (if waitForInit s0 then polls ID n @ [ContainerLogs ID] else []))"
    then have "resolvePort d s2
                   (tr3 @ (if waitForInit s0 then polls ID n @ [ContainerLogs ID] else []))
                 = (r, s1, tr)" by simp
    from resolvePort_not_started [OF this ns] show ?thesis by (simp add: s2_def)
  qed
qed

section \<open>Start on a controller that is not started\<close>

lemma fold_config:
  "list_all configOption opts \<Longrightarrow>
   mu (fold (\<lambda>opt s'. opt s') opts s) = mu s \<and>
   started (fold (\<lambda>opt s'. opt s') opts s) = started s \<and>
   containerID (fold (\<lambda>opt s'. opt s') opts s) = containerID s \<and>
   pm (fold (\<lambda>opt s'. opt s') opts s) = pm s \<and>
   cli (fold (\<lambda>opt s'. opt s') opts s) = cli s"
proof (induction opts arbitrary: s)
  case Nil
  show ?case by simp
next
  case (Cons opt opts)
  from Cons.prems have o: "configOption opt" and os: "list_all configOption opts" by simp_all
  from o have "mu (opt s) = mu s \<and> started (opt s) = started s \<and>
          containerID (opt s) = containerID s \<and> pm (opt s) = pm s \<and> cli (opt s) = cli s"
    by (simp add: configOption_def)
  with Cons.IH [OF os, of "opt s"] show ?case by simp
qed

lemma Start_fresh:
  "\<not> mu s \<Longrightarrow> \<not> started s \<Longrightarrow>
   Start forceRestart opts d s =
     map_option (\<lambda>(r, s', tr). (r, s'\<lparr>mu := False\<rparr>, tr))
       (configureAndStart opts d (s\<lparr>mu := True\<rparr>) [])"
  by (simp add: Start_def Lock_def Unlock_def)

lemma configureAndStart_no_client:
  "newClientWithOpts d = Some err \<Longrightarrow>
   configureAndStart opts d s tr =
     Some (Returned (Some (E err)), fold (\<lambda>opt s'. opt s') opts s, tr @ [NewClientWithOpts])"
  by (simp add: configureAndStart_def)

lemma configureAndStart_client:
  "newClientWithOpts d = None \<Longrightarrow>
   configureAndStart opts d s tr =
     map_option (\<lambda>(r, s2, tr'). (r, s2, tr @ NewClientWithOpts # tr'))
       (start d ((fold (\<lambda>opt s'. opt s') opts s)\<lparr>cli := Some Client\<rparr>))"
  by (simp add: configureAndStart_def split: option.splits)

text \<open>What a \<open>Start\<close> that returns on a controller that was not started went through.\<close>

lemma Start_fresh_cases:
  assumes f: "\<not> mu s" and ns: "\<not> started s"
    and st: "Start forceRestart opts d s = Some (r, s', tr)"
    and c: "c = fold (\<lambda>opt s'. opt s') opts (s\<lparr>mu := True\<rparr>)"
  shows "(\<exists>err. newClientWithOpts d = Some err \<and> r = Returned (Some (E err)) \<and>
            s' = c\<lparr>mu := False\<rparr> \<and> tr = [NewClientWithOpts])
         \<or> (newClientWithOpts d = None \<and>
             (\<exists>s1 tr1. start d (c\<lparr>cli := Some Client\<rparr>) = Some (r, s1, tr1) \<and>
                s' = s1\<lparr>mu := False\<rparr> \<and> tr = NewClientWithOpts # tr1))"
proof (cases "newClientWithOpts d")
  case (Some err)
  from st Start_fresh [OF f ns, of forceRestart opts d]
    configureAndStart_no_client [OF Some, of opts "s\<lparr>mu := True\<rparr>" "[]"]
  show ?thesis by (simp add: Some c)
next
  case None
  from st Start_fresh [OF f ns, of forceRestart opts d]
    configureAndStart_client [OF None, of opts "s\<lparr>mu := True\<rparr>" "[]"]
  have "map_option (\<lambda>(r, s', tr). (r, s'\<lparr>mu := False\<rparr>, tr))
          (map_option (\<lambda>(r, s2, tr'). (r, s2, [] @ NewClientWithOpts # tr'))
            (start d (c\<lparr>cli := Some Client\<rparr>))) = Some (r, s', tr)"
    by (simp add: c)
  then obtain r1 s1 tr1 where "start d (c\<lparr>cli := Some Client\<rparr>) = Some (r1, s1, tr1)"
    and "(r, s', tr) = (r1, s1\<lparr>mu := False\<rparr>, NewClientWithOpts # tr1)"
    by (cases "start d (c\<lparr>cli := Some Client\<rparr>)") auto
  with None show ?thesis by simp
qed


section \<open>A run on the sample runtime\<close>

lemma ensureImage_dockerOK:
  "ensureImage dockerOK LocalStackImage = (None, [ImageList ''localstack/localstack:3.0''])"
  by (simp add: ensureImage_def dockerOK_def LocalStackImage_def)

lemma dockerOK_replies:
  "newClientWithOpts dockerOK = None" "containerCreate dockerOK = Inr ''c1''"
  "containerStart dockerOK = None" "containerStop dockerOK = None"
  "containerInspect dockerOK =
     Inr [''4566/tcp'' \<mapsto> [\<lparr>HostIP = ''0.0.0.0'', HostPort = ''32768''\<rparr>]]"
  by (simp_all add: dockerOK_def)

lemma initComplete_dockerOK:
  "initCompleteLogLine s = '''' \<Longrightarrow> initComplete dockerOK s k"
  by (simp add: initComplete_def dockerOK_def)

lemma timedOut_zero: "initTimeout s = 0 \<Longrightarrow> \<not> timedOut d s k"
  by (simp add: timedOut_def word_sless_alt)

lemma start_dockerOK:
  "start dockerOK (New\<lparr>mu := True, cli := Some Client\<rparr>) =
     Some (Returned None, running\<lparr>mu := True\<rparr>, tl startCalls)"
proof -
  define s0 where "s0 = New\<lparr>mu := True, cli := Some Client\<rparr>"
  define s2 where "s2 = s0\<lparr>pm := (pm s0)(FixedPort \<mapsto> [\<lparr>HostIP = ''0.0.0.0'', HostPort = ''''\<rparr>]),
                     containerID := ''c1''\<rparr>"
  define tr3 where "tr3 = GoWatcher # [ImageList ''localstack/localstack:3.0''] @
             [ContainerCreate (containerName s0) (getVolumeMounts s0)
                ((pm s0)(FixedPort \<mapsto> [\<lparr>HostIP = ''0.0.0.0'', HostPort = ''''\<rparr>])),
              ContainerStart ''c1'']"
  have w: "waitForInit s0" by (simp add: s0_def New_def)
  have id: "containerID s2 = ''c1''" by (simp add: s2_def)
  have a: "\<not> timedOut dockerOK s2 (0 + 0)"
    by (rule timedOut_zero) (simp add: s2_def s0_def New_def)
  have b: "initComplete dockerOK s2 (0 + 0)"
    by (rule initComplete_dockerOK) (simp add: s2_def s0_def New_def)
  have c: "\<forall>j<(0::nat). \<not> timedOut dockerOK s2 (0 + j) \<and> \<not> initComplete dockerOK s2 (0 + j)"
    by simp
  have l: "waitLoop dockerOK s2 0 tr3 =
             Some (None, tr3 @ polls (containerID s2) 0 @ [ContainerLogs (containerID s2)])"
    using a b c by (rule waitLoop_ready_at)
  have "start dockerOK s0 = Some (resolvePort dockerOK s2 (tr3 @ [ContainerLogs ''c1'']))"
    using start_runs [OF ensureImage_dockerOK dockerOK_replies(2) dockerOK_replies(3) s2_def tr3_def]
    by (simp add: w l polls_def id)
  also have "resolvePort dockerOK s2 (tr3 @ [ContainerLogs ''c1'']) =
               (Returned None, running\<lparr>mu := True\<rparr>, tl startCalls)"
    by (simp add: resolvePort_def dockerOK_replies FixedPort_eq s2_def s0_def tr3_def
        running_def New_def startCalls_def getVolumeMounts_def socketMount_def)
  finally show ?thesis by (simp add: s0_def)
qed

lemma Start_dockerOK:
  "Start False [] dockerOK New = Some (Returned None, running, startCalls)"
proof -
  have "configureAndStart [] dockerOK (New\<lparr>mu := True\<rparr>) [] =
          Some (Returned None, running\<lparr>mu := True\<rparr>, NewClientWithOpts # tl startCalls)"
    by (simp add: configureAndStart_client [OF dockerOK_replies(1)] start_dockerOK)
  moreover have "running\<lparr>mu := True\<rparr>\<lparr>mu := False\<rparr> = running"
    by (simp add: running_def New_def)
  moreover have "NewClientWithOpts # tl startCalls = startCalls"
    by (simp add: startCalls_def)
  ultimately show ?thesis
    by (simp add: Start_fresh [OF New_fields(1) New_fields(2)])
qed


section \<open>A timeout beyond the range of the bound\<close>

text \<open>
  The bound of the loop is the product \<open>time.Duration(s.initTimeout) * time.Second\<close> in
  64-bit signed arithmetic. From 9223372037 seconds on the product leaves the range; up to
  18446744073 seconds it wraps to a negative number.
\<close>

lemma product_wraps:
  assumes "9223372037 \<le> sint (T :: 64 word)" and "sint T \<le> 18446744073"
  shows "(T * 1000000000) <s 0"
proof -
  have a: "2 ^ 63 \<le> sint T * 1000000000" using assms(1) by simp
  have b: "sint T * 1000000000 < 2 ^ 64" using assms(2) by simp
  have "signed_take_bit 63 (sint T * 1000000000) \<le> sint T * 1000000000 - 2 ^ Suc 63"
    using a by (rule signed_take_bit_int_less_eq)
  also have "\<dots> < 0" using b by simp
  finally have "sint (T * 1000000000) < 0" by (simp add: sint_word_ariths)
  then show ?thesis by (simp add: word_sless_alt)
qed

lemma waitLoop_negative_bound:
  assumes "0 <s initTimeout s" and "(initTimeout s * 1000000000) <s 0" and "0 \<le>s since d 0"
  shows "waitLoop d s 0 tr = Some (Some (InitTimeoutExceeded (initTimeout s)), tr)"
proof -
  have "(initTimeout s * 1000000000) <s since d 0"
    using assms(2,3) by (simp add: word_sless_alt word_sle_eq)
  then have "timedOut d s 0" using assms(1) by (simp add: timedOut_def)
  then show ?thesis by (subst waitLoop.simps) simp
qed

lemma waitLoop_above_range:
  assumes "9223372037 \<le> sint (initTimeout s)" and "sint (initTimeout s) \<le> 18446744073"
    and "0 \<le>s since d 0"
  shows "waitLoop d s 0 tr = Some (Some (InitTimeoutExceeded (initTimeout s)), tr)"
proof -
  have "0 <s initTimeout s" using assms(1) by (simp add: word_sless_alt)
  moreover have "(initTimeout s * 1000000000) <s 0" using assms(1,2) by (rule product_wraps)
  ultimately show ?thesis using assms(3) by (rule waitLoop_negative_bound)
qed

text \<open>
  The largest value, 9223372036854775807, which a caller may pass to mean no limit, gives the
  product \<open>-1000000000\<close>.
\<close>

lemma product_wraps_max:
  assumes "sint (T :: 64 word) = 9223372036854775807"
  shows "(T * 1000000000) <s 0"
proof -
  have "sint T = sint (9223372036854775807 :: 64 word)" using assms by simp
  then have "T = 9223372036854775807" by (rule signed_word_eqI)
  then show ?thesis by (simp add: word_sless_alt)
qed

lemma waitLoop_beyond_range:
  assumes "9223372037 \<le> sint (initTimeout s) \<and> sint (initTimeout s) \<le> 18446744073
           \<or> sint (initTimeout s) = 9223372036854775807"
    and "0 \<le>s since d 0"
  shows "waitLoop d s 0 tr = Some (Some (InitTimeoutExceeded (initTimeout s)), tr)"
proof -
  from assms(1) have "0 < sint (initTimeout s)" by auto
  then have "0 <s initTimeout s" by (simp add: word_sless_alt)
  moreover from assms(1) have "(initTimeout s * 1000000000) <s 0"
  proof
    assume "9223372037 \<le> sint (initTimeout s) \<and> sint (initTimeout s) \<le> 18446744073"
    then show ?thesis by (intro product_wraps) simp_all
  next
    assume "sint (initTimeout s) = 9223372036854775807"
    then show ?thesis by (rule product_wraps_max)
  qed
  ultimately show ?thesis using assms(2) by (rule waitLoop_negative_bound)
qed

text \<open>
  Up to 9223372036 seconds the product is exact, and the loop ends with an error exactly when
  some test finds more than \<open>initTimeout\<close> seconds elapsed while no earlier poll has seen
  the marker.
\<close>

lemma waitLoop_in_range:
  assumes p: "0 < sint (initTimeout s)" and r: "sint (initTimeout s) \<le> 9223372036"
  shows "(\<exists>tr'. waitLoop d s 0 tr = Some (Some err, tr')) \<longleftrightarrow>
      err = InitTimeoutExceeded (initTimeout s) \<and>
      (\<exists>n. sint (initTimeout s) * 1000000000 < sint (since d n) \<and>
           (\<forall>j<n. \<not> sint (initTimeout s) * 1000000000 < sint (since d j) \<and>
                  \<not> initComplete d s j))"
proof -
  have q: "0 <s initTimeout s" using p by (simp add: word_sless_alt)
  have e: "sint (initTimeout s * 1000000000) = sint (initTimeout s) * 1000000000"
    using q r by (rule bound_exact)
  have l: "\<And>x. (initTimeout s * 1000000000) <s x \<longleftrightarrow> sint (initTimeout s) * 1000000000 < sint x"
    by (simp add: word_sless_alt e)
  show ?thesis
    using waitLoop_error_iff [where d = d and s = s and tr = tr and err = err, THEN conjunct1]
    by (simp add: l q)
qed

lemma overflowed_fields:
  "initTimeout overflowed = 9223372037" "containerID overflowed = ''c1''"
  "initCompleteLogLine overflowed = ''''" "\<not> started overflowed" "\<not> mu overflowed"
  by (simp_all add: overflowed_def pending_def New_def)

text \<open>
  \<open>Start\<close> from \<open>New\<close> with that timeout, on the runtime whose log holds the marker
  from the first poll on and whose clock stands still.
\<close>

lemma Start_overflowed:
  "Start False [WithInitTimeout 9223372037] dockerOK New =
     Some (Returned (Some (InitTimeoutExceeded 9223372037)), overflowed, pendingCalls)"
proof -
  define s0 where "s0 = New\<lparr>mu := True, initTimeout := 9223372037, cli := Some Client\<rparr>"
  define s2 where "s2 = s0\<lparr>pm := (pm s0)(FixedPort \<mapsto> [\<lparr>HostIP = ''0.0.0.0'', HostPort = ''''\<rparr>]),
                     containerID := ''c1''\<rparr>"
  define tr3 where "tr3 = GoWatcher # [ImageList ''localstack/localstack:3.0''] @
             [ContainerCreate (containerName s0) (getVolumeMounts s0)
                ((pm s0)(FixedPort \<mapsto> [\<lparr>HostIP = ''0.0.0.0'', HostPort = ''''\<rparr>])),
              ContainerStart ''c1'']"
  have w: "waitForInit s0" by (simp add: s0_def New_def)
  have t: "initTimeout s2 = 9223372037" by (simp add: s2_def s0_def)
  have a: "9223372037 \<le> sint (initTimeout s2)" "sint (initTimeout s2) \<le> 18446744073"
    by (simp_all add: t)
  have b: "0 \<le>s since dockerOK 0" by (simp add: dockerOK_def)
  have l: "waitLoop dockerOK s2 0 tr3 = Some (Some (InitTimeoutExceeded 9223372037), tr3)"
    using waitLoop_above_range [OF a b, of tr3] by (simp add: t)
  have "start dockerOK s0 = Some (Returned (Some (InitTimeoutExceeded 9223372037)), s2, tr3)"
    using start_runs [OF ensureImage_dockerOK dockerOK_replies(2) dockerOK_replies(3) s2_def tr3_def]
    by (simp add: w l)
  also have "s2 = overflowed\<lparr>mu := True\<rparr>"
    by (simp add: s2_def s0_def overflowed_def pending_def New_def FixedPort_eq)
  also have "tr3 = tl pendingCalls"
    by (simp add: tr3_def s0_def pendingCalls_def New_def getVolumeMounts_def socketMount_def
        FixedPort_eq)
  finally have "configureAndStart [WithInitTimeout 9223372037] dockerOK (New\<lparr>mu := True\<rparr>) [] =
          Some (Returned (Some (InitTimeoutExceeded 9223372037)), overflowed\<lparr>mu := True\<rparr>,
                NewClientWithOpts # tl pendingCalls)"
    by (simp add: configureAndStart_client [OF dockerOK_replies(1)] WithInitTimeout_def s0_def)
  moreover have "overflowed\<lparr>mu := True\<rparr>\<lparr>mu := False\<rparr> = overflowed"
    by (simp add: overflowed_def pending_def New_def)
  moreover have "NewClientWithOpts # tl pendingCalls = pendingCalls"
    by (simp add: pendingCalls_def)
  ultimately show ?thesis
    by (simp add: Start_fresh [OF New_fields(1) New_fields(2)])
qed

text \<open>
  Claim C4. The claim is that the readiness loop ends with an error exactly when
  \<open>initTimeout\<close> is positive and the marker has not been seen within \<open>initTimeout\<close>
  seconds. For an \<open>initTimeout\<close> from 9223372037 to 18446744073 seconds, and for the largest
  value 9223372036854775807, the bound that the code computes is negative, and the loop returns
  the timeout error at its first test, with no time elapsed and before any log is fetched,
  whatever the log holds.
\<close>

theorem waitLoop_wraps:
  "9223372037 \<le> sint (initTimeout s) \<and> sint (initTimeout s) \<le> 18446744073
     \<or> sint (initTimeout s) = 9223372036854775807 \<Longrightarrow>
   0 \<le>s since d 0 \<Longrightarrow>
   waitLoop d s 0 tr = Some (Some (InitTimeoutExceeded (initTimeout s)), tr)"
  by (rule waitLoop_beyond_range)

theorem waitLoop_wraps_witness:
  "sint (initTimeout overflowed) = 9223372037 \<and> since dockerOK 0 = 0
   \<and> initComplete dockerOK overflowed 0
   \<and> waitLoop dockerOK overflowed 0 [] = Some (Some (InitTimeoutExceeded 9223372037), [])
   \<and> initComplete dockerOK (overflowed\<lparr>initTimeout := 9223372036854775807\<rparr>) 0
   \<and> waitLoop dockerOK (overflowed\<lparr>initTimeout := 9223372036854775807\<rparr>) 0 []
       = Some (Some (InitTimeoutExceeded 9223372036854775807), [])
   \<and> Start False [WithInitTimeout 9223372037] dockerOK New =
       Some (Returned (Some (InitTimeoutExceeded 9223372037)), overflowed, pendingCalls)"
proof -
  have t: "sint (initTimeout overflowed) = 9223372037" by (simp add: overflowed_fields)
  have z: "since dockerOK 0 = 0" by (simp add: dockerOK_def)
  have a: "9223372037 \<le> sint (initTimeout overflowed) \<and>
           sint (initTimeout overflowed) \<le> 18446744073
           \<or> sint (initTimeout overflowed) = 9223372036854775807"
    by (simp add: t)
  have b: "0 \<le>s since dockerOK 0" by (simp add: z)
  have i: "initComplete dockerOK overflowed 0"
    by (rule initComplete_dockerOK) (simp add: overflowed_fields)
  have l: "waitLoop dockerOK overflowed 0 [] = Some (Some (InitTimeoutExceeded 9223372037), [])"
    using waitLoop_wraps [OF a b, of "[]"] by (simp add: overflowed_fields)
  have a': "9223372037 \<le> sint (initTimeout (overflowed\<lparr>initTimeout := 9223372036854775807\<rparr>)) \<and>
           sint (initTimeout (overflowed\<lparr>initTimeout := 9223372036854775807\<rparr>)) \<le> 18446744073
           \<or> sint (initTimeout (overflowed\<lparr>initTimeout := 9223372036854775807\<rparr>))
               = 9223372036854775807"
    by simp
  have i': "initComplete dockerOK (overflowed\<lparr>initTimeout := 9223372036854775807\<rparr>) 0"
    by (rule initComplete_dockerOK) (simp add: overflowed_fields)
  have l': "waitLoop dockerOK (overflowed\<lparr>initTimeout := 9223372036854775807\<rparr>) 0 []
       = Some (Some (InitTimeoutExceeded 9223372036854775807), [])"
    using waitLoop_wraps [OF a' b, of "[]"] by simp
  from t z i l i' l' Start_overflowed show ?thesis by (intro conjI)
qed

section \<open>Claims about Start\<close>

lemma Start_fresh_started:
  assumes f: "\<not> mu s0" and ns: "\<not> started s0" and o: "list_all configOption opts"
    and st: "Start forceRestart opts d s0 = Some (r, s1, tr)" and s: "started s1"
  shows "r = Returned None \<and> \<not> mu s1 \<and> cli s1 = Some Client \<and>
         (\<exists>ID ports b bs. containerCreate d = Inr ID \<and> containerInspect d = Inr ports \<and>
            ports FixedPort = Some (b # bs) \<and> containerID s1 = ID \<and>
            pm s1 FixedPort = Some [\<lparr>HostIP = ''localhost'', HostPort = HostPort b\<rparr>]) \<and>
         count isProvision tr = 1 \<and> count isCreate tr = 1 \<and> count isStart tr = 1 \<and>
         count isInspect tr = 1 \<and> count isStop tr = 0"
proof -
  define c where "c = fold (\<lambda>opt s'. opt s') opts (s0\<lparr>mu := True\<rparr>)"
  have nc: "\<not> started c" using fold_config [OF o, of "s0\<lparr>mu := True\<rparr>"] ns
    by (simp add: c_def)
  from Start_fresh_cases [OF f ns st c_def]
  show ?thesis
  proof
    assume "\<exists>err. newClientWithOpts d = Some err \<and> r = Returned (Some (E err)) \<and>
            s1 = c\<lparr>mu := False\<rparr> \<and> tr = [NewClientWithOpts]"
    with nc s show ?thesis by auto
  next
    assume "newClientWithOpts d = None \<and>
             (\<exists>s1' tr1. start d (c\<lparr>cli := Some Client\<rparr>) = Some (r, s1', tr1) \<and>
                s1 = s1'\<lparr>mu := False\<rparr> \<and> tr = NewClientWithOpts # tr1)"
    then obtain s1' tr1 where
      a: "start d (c\<lparr>cli := Some Client\<rparr>) = Some (r, s1', tr1)" and
      b: "s1 = s1'\<lparr>mu := False\<rparr>" and t: "tr = NewClientWithOpts # tr1"
      by blast
    have n0: "\<not> started (c\<lparr>cli := Some Client\<rparr>)" using nc by simp
    have s': "started s1'" using s b by simp
    from start_started [OF a n0 s'] obtain ID ports b bs where
      r: "r = Returned None" and
      i: "containerCreate d = Inr ID" "containerInspect d = Inr ports"
         "ports FixedPort = Some (b # bs)" and
      e: "s1' = c\<lparr>cli := Some Client\<rparr>
                 \<lparr>pm := (pm (c\<lparr>cli := Some Client\<rparr>))
                          (FixedPort \<mapsto> [\<lparr>HostIP = ''localhost'', HostPort = HostPort b\<rparr>]),
                  containerID := ID, started := True\<rparr>" and
      k: "count isProvision tr1 = 1 \<and> count isCreate tr1 = 1 \<and> count isStart tr1 = 1 \<and>
          count isInspect tr1 = 1 \<and> count isStop tr1 = 0"
      by blast
    have p: "\<not> mu s1 \<and> cli s1 = Some Client \<and> containerID s1 = ID \<and>
             pm s1 FixedPort = Some [\<lparr>HostIP = ''localhost'', HostPort = HostPort b\<rparr>]"
      by (simp add: b e)
    have k': "count isProvision tr = 1 \<and> count isCreate tr = 1 \<and> count isStart tr = 1 \<and>
          count isInspect tr = 1 \<and> count isStop tr = 0"
      using k by (simp add: t count_Cons)
    from r p i k' show ?thesis by blast
  qed
qed

text \<open>
  Claim C1. On a controller whose \<open>started\<close> flag is set and whose lock is free,
  \<open>Start(false)\<close> returns nil, sends no request and leaves the controller as it is, whatever
  the options and the runtime. So when a \<open>Start(false)\<close> on a controller that was not
  started ends with \<open>started\<close> set, a second \<open>Start(false)\<close> adds nothing: the two
  calls together list the images once, create one container and start it once.
\<close>

theorem Start_idempotent:
  "(started s \<and> \<not> mu s \<longrightarrow> Start False opts d s = Some (Returned None, s, []))
   \<and> (\<not> mu s0 \<and> \<not> started s0 \<and> list_all configOption opts1 \<and>
       Start False opts1 d1 s0 = Some (r1, s1, tr1) \<and> started s1 \<longrightarrow>
         (\<exists>tr2. Start False opts2 d2 s1 = Some (Returned None, s1, tr2) \<and>
            count isProvision (tr1 @ tr2) = 1 \<and> count isCreate (tr1 @ tr2) = 1 \<and>
            count isStart (tr1 @ tr2) = 1))"
proof (intro conjI impI)
  assume "started s \<and> \<not> mu s"
  then show "Start False opts d s = Some (Returned None, s, [])"
    by (simp add: Start_noop)
next
  assume a: "\<not> mu s0 \<and> \<not> started s0 \<and> list_all configOption opts1 \<and>
       Start False opts1 d1 s0 = Some (r1, s1, tr1) \<and> started s1"
  then have f: "\<not> mu s0" and ns: "\<not> started s0" and o: "list_all configOption opts1"
    and st: "Start False opts1 d1 s0 = Some (r1, s1, tr1)" and s: "started s1"
    by simp_all
  note fs = Start_fresh_started [OF f ns o st s]
  from fs s have 2: "Start False opts2 d2 s1 = Some (Returned None, s1, [])"
    by (simp add: Start_noop)
  from fs have k: "count isProvision (tr1 @ []) = 1" "count isCreate (tr1 @ []) = 1"
    "count isStart (tr1 @ []) = 1"
    by simp_all
  from 2 k
  show "\<exists>tr2. Start False opts2 d2 s1 = Some (Returned None, s1, tr2) \<and>
            count isProvision (tr1 @ tr2) = 1 \<and> count isCreate (tr1 @ tr2) = 1 \<and>
            count isStart (tr1 @ tr2) = 1"
    by (intro exI [of _ "[]"] conjI)
qed

theorem Start_idempotent_witness:
  "Start False [] dockerOK New = Some (Returned None, running, startCalls)
   \<and> started running \<and> \<not> mu running
   \<and> Start False [] dockerOK running = Some (Returned None, running, [])
   \<and> (\<exists>tr2. Start False [] dockerOK running = Some (Returned None, running, tr2) \<and>
          count isProvision (startCalls @ tr2) = 1 \<and> count isCreate (startCalls @ tr2) = 1 \<and>
          count isStart (startCalls @ tr2) = 1)"
proof -
  have a: "\<not> mu New \<and> \<not> started New \<and> list_all configOption [] \<and>
       Start False [] dockerOK New = Some (Returned None, running, startCalls) \<and> started running"
    by (simp add: New_fields running_fields Start_dockerOK)
  have b: "started running \<and> \<not> mu running" by (simp add: running_fields)
  note i = Start_idempotent [where ?s0.0 = New and ?opts1.0 = "[]" and ?d1.0 = dockerOK
      and ?r1.0 = "Returned None" and ?s1.0 = running and ?tr1.0 = startCalls
      and s = running and opts = "[]" and d = dockerOK and ?opts2.0 = "[]" and ?d2.0 = dockerOK]
  from i [THEN conjunct1, rule_format, OF b]
  have n: "Start False [] dockerOK running = Some (Returned None, running, [])" .
  from i [THEN conjunct2, rule_format, OF a]
  have c: "\<exists>tr2. Start False [] dockerOK running = Some (Returned None, running, tr2) \<and>
          count isProvision (startCalls @ tr2) = 1 \<and> count isCreate (startCalls @ tr2) = 1 \<and>
          count isStart (startCalls @ tr2) = 1" .
  from a b n c show ?thesis by (intro conjI) simp_all
qed

section \<open>The endpoint\<close>

lemma dockerStartFails_replies:
  "newClientWithOpts dockerStartFails = None" "containerCreate dockerStartFails = Inr ''c1''"
  "containerStart dockerStartFails = Some ''cannot start''"
  "ensureImage dockerStartFails LocalStackImage =
     (None, [ImageList ''localstack/localstack:3.0''])"
  by (simp_all add: dockerStartFails_def dockerOK_def ensureImage_def LocalStackImage_def)

lemma pending_fields:
  "\<not> started pending" "containerID pending = ''c1''" "\<not> mu pending"
  by (simp_all add: pending_def New_def)

lemma Start_dockerStartFails:
  "Start False [] dockerStartFails New =
     Some (Returned (Some (E ''cannot start'')), pending, pendingCalls)"
proof -
  have "start dockerStartFails (New\<lparr>mu := True, cli := Some Client\<rparr>) =
          Some (Returned (Some (E ''cannot start'')), pending\<lparr>mu := True\<rparr>, tl pendingCalls)"
    by (simp add: start_start_fails [OF dockerStartFails_replies(4) dockerStartFails_replies(2)
          dockerStartFails_replies(3)]
        pending_def New_def pendingCalls_def FixedPort_eq getVolumeMounts_def socketMount_def)
  then have "configureAndStart [] dockerStartFails (New\<lparr>mu := True\<rparr>) [] =
          Some (Returned (Some (E ''cannot start'')), pending\<lparr>mu := True\<rparr>,
                NewClientWithOpts # tl pendingCalls)"
    by (simp add: configureAndStart_client [OF dockerStartFails_replies(1)])
  moreover have "pending\<lparr>mu := True\<rparr>\<lparr>mu := False\<rparr> = pending"
    by (simp add: pending_def New_def)
  moreover have "NewClientWithOpts # tl pendingCalls = pendingCalls"
    by (simp add: pendingCalls_def)
  ultimately show ?thesis
    by (simp add: Start_fresh [OF New_fields(1) New_fields(2)])
qed

lemma EndpointURL_pending: "EndpointURL pending = Some ''http://0.0.0.0:''"
  by (simp add: EndpointURL_def pending_def New_def FixedPort_eq)

text \<open>
  Claim C3, as stated, fails: it says that \<open>EndpointURL\<close> is empty at any point before a
  start has completed. On a runtime that creates the container and then fails to start it,
  \<open>Start\<close> returns the error with \<open>started\<close> still false, and \<open>EndpointURL\<close> is built from
  the binding requested before creation.
\<close>

theorem EndpointURL_pending_counterexample:
  "Start False [] dockerStartFails New =
     Some (Returned (Some (E ''cannot start'')), pending, pendingCalls)
   \<and> \<not> started pending
   \<and> EndpointURL pending = Some ''http://0.0.0.0:''
   \<and> EndpointURL pending \<noteq> Some ''''"
  by (simp add: Start_dockerStartFails pending_fields EndpointURL_pending)

text \<open>
  Claim C3, amended. \<open>EndpointURL\<close> is empty whenever \<open>containerID\<close> is empty. After a
  \<open>Start\<close> on a controller that was not started, on a runtime that gives a non-empty
  identifier: when \<open>started\<close> is set, \<open>EndpointURL\<close> is \<open>http://localhost:\<close> followed by
  the host port of the first binding that inspection reports for \<open>4566/tcp\<close>; when the
  container was created and \<open>started\<close> is not set, \<open>EndpointURL\<close> is \<open>http://0.0.0.0:\<close>,
  from the binding requested before creation.
\<close>

theorem EndpointURL_contract:
  "(containerID s = '''' \<longrightarrow> EndpointURL s = Some '''')
   \<and> (\<not> mu s0 \<and> \<not> started s0 \<and> list_all configOption opts \<and> wellFormed d \<and>
       Start forceRestart opts d s0 = Some (r, s1, tr) \<and> started s1 \<longrightarrow>
         (\<exists>ports b bs. containerInspect d = Inr ports \<and> ports FixedPort = Some (b # bs) \<and>
            EndpointURL s1 = Some (''http://localhost:'' @ HostPort b)))
   \<and> (\<not> mu s0 \<and> \<not> started s0 \<and> Start forceRestart opts d s0 = Some (r, s1, tr) \<and>
       \<not> started s1 \<and> newClientWithOpts d = None \<and>
       ensureImage d LocalStackImage = (None, tr1) \<and> containerCreate d = Inr ID \<and> ID \<noteq> '''' \<longrightarrow>
         EndpointURL s1 = Some ''http://0.0.0.0:'')"
proof (intro conjI impI)
  assume "containerID s = ''''"
  then show "EndpointURL s = Some ''''" by (simp add: EndpointURL_def)
next
  assume a: "\<not> mu s0 \<and> \<not> started s0 \<and> list_all configOption opts \<and> wellFormed d \<and>
       Start forceRestart opts d s0 = Some (r, s1, tr) \<and> started s1"
  then have f: "\<not> mu s0" and ns: "\<not> started s0" and o: "list_all configOption opts"
    and w: "wellFormed d" and st: "Start forceRestart opts d s0 = Some (r, s1, tr)"
    and s: "started s1"
    by simp_all
  from Start_fresh_started [OF f ns o st s] obtain ID ports b bs where
    i: "containerCreate d = Inr ID" "containerInspect d = Inr ports"
       "ports FixedPort = Some (b # bs)" "containerID s1 = ID"
       "pm s1 FixedPort = Some [\<lparr>HostIP = ''localhost'', HostPort = HostPort b\<rparr>]"
    by blast
  from w i(1) have "ID \<noteq> ''''" by (auto simp: wellFormed_def)
  with i have "EndpointURL s1 = Some (''http://localhost:'' @ HostPort b)"
    by (simp add: EndpointURL_def)
  with i show "\<exists>ports b bs. containerInspect d = Inr ports \<and> ports FixedPort = Some (b # bs) \<and>
            EndpointURL s1 = Some (''http://localhost:'' @ HostPort b)"
    by blast
next
  assume a: "\<not> mu s0 \<and> \<not> started s0 \<and> Start forceRestart opts d s0 = Some (r, s1, tr) \<and>
       \<not> started s1 \<and> newClientWithOpts d = None \<and>
       ensureImage d LocalStackImage = (None, tr1) \<and> containerCreate d = Inr ID \<and> ID \<noteq> ''''"
  then have f: "\<not> mu s0" and ns: "\<not> started s0"
    and st: "Start forceRestart opts d s0 = Some (r, s1, tr)" and n1: "\<not> started s1"
    and nc: "newClientWithOpts d = None" and e: "ensureImage d LocalStackImage = (None, tr1)"
    and c: "containerCreate d = Inr ID" and id: "ID \<noteq> ''''"
    by simp_all
  define c0 where "c0 = fold (\<lambda>opt s'. opt s') opts (s0\<lparr>mu := True\<rparr>)"
  from Start_fresh_cases [OF f ns st c0_def] nc obtain s1' tr' where
    a: "start d (c0\<lparr>cli := Some Client\<rparr>) = Some (r, s1', tr')" and
    b: "s1 = s1'\<lparr>mu := False\<rparr>"
    by auto
  from n1 b have "\<not> started s1'" by simp
  from start_pending [OF a this e c]
  have "s1' = c0\<lparr>cli := Some Client\<rparr>
               \<lparr>pm := (pm (c0\<lparr>cli := Some Client\<rparr>))
                        (FixedPort \<mapsto> [\<lparr>HostIP = ''0.0.0.0'', HostPort = ''''\<rparr>]),
                containerID := ID\<rparr>"
    by simp
  with b id show "EndpointURL s1 = Some ''http://0.0.0.0:''"
    by (simp add: EndpointURL_def)
qed

theorem EndpointURL_contract_witness:
  "EndpointURL New = Some ''''
   \<and> Start False [] dockerOK New = Some (Returned None, running, startCalls)
   \<and> EndpointURL running = Some ''http://localhost:32768''
   \<and> EndpointURL pending = Some ''http://0.0.0.0:''"
proof -
  note c = EndpointURL_contract [where s = New and ?s0.0 = New and opts = "[]"
      and forceRestart = False]
  have 1: "EndpointURL New = Some ''''"
    using c [THEN conjunct1] by (simp add: New_fields)
  have a: "\<not> mu New \<and> \<not> started New \<and> list_all configOption [] \<and> wellFormed dockerOK \<and>
       Start False [] dockerOK New = Some (Returned None, running, startCalls) \<and> started running"
    by (simp add: New_fields running_fields Start_dockerOK wellFormed_def dockerOK_replies)
  from c [where d = dockerOK and r = "Returned None" and ?s1.0 = running and tr = startCalls,
      THEN conjunct2, THEN conjunct1, rule_format, OF a]
  obtain ports b bs where
    "containerInspect dockerOK = Inr ports" "ports FixedPort = Some (b # bs)"
    "EndpointURL running = Some (''http://localhost:'' @ HostPort b)"
    by blast
  then have 2: "EndpointURL running = Some ''http://localhost:32768''"
    by (auto simp: dockerOK_replies FixedPort_eq)
  have b: "\<not> mu New \<and> \<not> started New \<and>
       Start False [] dockerStartFails New =
         Some (Returned (Some (E ''cannot start'')), pending, pendingCalls) \<and>
       \<not> started pending \<and> newClientWithOpts dockerStartFails = None \<and>
       ensureImage dockerStartFails LocalStackImage =
         (None, [ImageList ''localstack/localstack:3.0'']) \<and>
       containerCreate dockerStartFails = Inr ''c1'' \<and> ''c1'' \<noteq> ''''"
    by (simp add: New_fields pending_fields Start_dockerStartFails dockerStartFails_replies)
  from c [where d = dockerStartFails and r = "Returned (Some (E ''cannot start''))"
      and ?s1.0 = pending and tr = pendingCalls
      and ?tr1.0 = "[ImageList ''localstack/localstack:3.0'']" and ID = "''c1''",
      THEN conjunct2, THEN conjunct2, rule_format, OF b]
  have 3: "EndpointURL pending = Some ''http://0.0.0.0:''" .
  from 1 a 2 3 show ?thesis by simp
qed


section \<open>A name that is already in use\<close>

lemma Start_create_fails:
  assumes f: "\<not> mu s" and ns: "\<not> started s" and nc: "newClientWithOpts d = None"
    and e: "ensureImage d LocalStackImage = (None, tr1)" and c: "containerCreate d = Inl err"
    and c0: "c0 = fold (\<lambda>opt s'. opt s') opts (s\<lparr>mu := True\<rparr>)"
  shows "Start forceRestart opts d s =
           Some (if reuseExisting c0 \<and> Contains err (nameInUse c0) then Returned None
                 else Returned (Some (CouldNotCreate err)),
                 c0\<lparr>cli := Some Client,
                    pm := (pm c0)(FixedPort \<mapsto> [\<lparr>HostIP = ''0.0.0.0'', HostPort = ''''\<rparr>]),
                    mu := False\<rparr>,
                 NewClientWithOpts # GoWatcher # tr1 @
                   [ContainerCreate (containerName c0) (getVolumeMounts c0)
                      ((pm c0)(FixedPort \<mapsto> [\<lparr>HostIP = ''0.0.0.0'', HostPort = ''''\<rparr>]))])"
proof -
  have n: "nameInUse (c0\<lparr>cli := Some Client\<rparr>) = nameInUse c0"
    "getVolumeMounts (c0\<lparr>cli := Some Client\<rparr>) = getVolumeMounts c0"
    by (simp_all add: nameInUse_def getVolumeMounts_def)
  show ?thesis
    by (simp add: Start_fresh [OF f ns] configureAndStart_client [OF nc]
        start_create_fails [OF e c] c0 [symmetric] n)
qed

text \<open>
  The test of the creation error in \<open>start\<close>, with the text it looks for written out.
\<close>

lemma Contains_needle:
  "Contains err (nameInUse c0) \<longleftrightarrow>
     sublist (''The container name '' @ [CHR 0x22] @ containerName c0 @ [CHR 0x22]
                @ '' is already in use by container'') err"
  by (simp only: Contains_sublist nameInUse_def)

text \<open>
  Claim C8. \<open>Start\<close> on a controller that is not started, when the client and the image
  are there and creation fails with the error text \<open>err\<close>. The error is a name collision
  for the configured name when \<open>err\<close> contains, as a contiguous substring, the text
  \<open>The container name\<close>, a space, \<open>N\<close> between double quotes, and
  \<open>is already in use by container\<close> after a space, \<open>N\<close> being the
  \<open>containerName\<close> that the options left. If \<open>reuseExisting\<close> is set and the error
  is such a collision, \<open>Start\<close> returns nil; if \<open>reuseExisting\<close> is not set, or the
  error is not such a collision, \<open>Start\<close> returns the creation error, wrapped. Either way
  \<open>started\<close> and \<open>containerID\<close> are as the options left them (false and empty when
  they were so and the options only configure), and no start, log or inspect request is sent.
\<close>

theorem Start_reuse:
  "\<not> mu s \<and> \<not> started s \<and> newClientWithOpts d = None \<and>
   ensureImage d LocalStackImage = (None, tr1) \<and> containerCreate d = Inl err \<and>
   c0 = fold (\<lambda>opt s'. opt s') opts (s\<lparr>mu := True\<rparr>) \<longrightarrow>
     (\<exists>s' tr. Start forceRestart opts d s =
          Some (if reuseExisting c0 \<and>
                   sublist (''The container name '' @ [CHR 0x22] @ containerName c0 @ [CHR 0x22]
                              @ '' is already in use by container'') err
                then Returned None else Returned (Some (CouldNotCreate err)), s', tr) \<and>
        started s' = started c0 \<and> containerID s' = containerID c0 \<and>
        (list_all configOption opts \<and> containerID s = '''' \<longrightarrow>
           \<not> started s' \<and> containerID s' = '''') \<and>
        count isStart tr = 0 \<and> count isLogs tr = 0 \<and> count isInspect tr = 0)"
proof
  assume a: "\<not> mu s \<and> \<not> started s \<and> newClientWithOpts d = None \<and>
   ensureImage d LocalStackImage = (None, tr1) \<and> containerCreate d = Inl err \<and>
   c0 = fold (\<lambda>opt s'. opt s') opts (s\<lparr>mu := True\<rparr>)"
  then have f: "\<not> mu s" and ns: "\<not> started s" and nc: "newClientWithOpts d = None"
    and e: "ensureImage d LocalStackImage = (None, tr1)" and c: "containerCreate d = Inl err"
    and c0: "c0 = fold (\<lambda>opt s'. opt s') opts (s\<lparr>mu := True\<rparr>)"
    by simp_all
  define s' where "s' = c0\<lparr>cli := Some Client,
                    pm := (pm c0)(FixedPort \<mapsto> [\<lparr>HostIP = ''0.0.0.0'', HostPort = ''''\<rparr>]),
                    mu := False\<rparr>"
  define tr where "tr = NewClientWithOpts # GoWatcher # tr1 @
                   [ContainerCreate (containerName c0) (getVolumeMounts c0)
                      ((pm c0)(FixedPort \<mapsto> [\<lparr>HostIP = ''0.0.0.0'', HostPort = ''''\<rparr>]))]"
  have st: "Start forceRestart opts d s =
          Some (if reuseExisting c0 \<and>
                   sublist (''The container name '' @ [CHR 0x22] @ containerName c0 @ [CHR 0x22]
                              @ '' is already in use by container'') err
                then Returned None else Returned (Some (CouldNotCreate err)), s', tr)"
    unfolding s'_def tr_def Contains_needle [symmetric]
    by (rule Start_create_fails [OF f ns nc e c c0])
  have k: "started s' = started c0 \<and> containerID s' = containerID c0"
    by (simp add: s'_def)
  then have k1: "started s' = started c0" and k2: "containerID s' = containerID c0"
    by simp_all
  have o: "list_all configOption opts \<and> containerID s = '''' \<longrightarrow>
           \<not> started s' \<and> containerID s' = ''''"
  proof
    assume "list_all configOption opts \<and> containerID s = ''''"
    then have "list_all configOption opts" and i: "containerID s = ''''" by simp_all
    from fold_config [OF this(1), of "s\<lparr>mu := True\<rparr>"] ns i
    have "\<not> started c0 \<and> containerID c0 = ''''" by (simp add: c0)
    with k show "\<not> started s' \<and> containerID s' = ''''" by simp
  qed
  have t: "count isStart tr = 0 \<and> count isLogs tr = 0 \<and> count isInspect tr = 0"
    by (simp add: tr_def count_append count_Cons count_Nil count_tr1 [OF e])
  then have t1: "count isStart tr = 0" and t2: "count isLogs tr = 0"
    and t3: "count isInspect tr = 0"
    by simp_all
  from st k1 k2 o t1 t2 t3
  show "\<exists>s' tr. Start forceRestart opts d s =
          Some (if reuseExisting c0 \<and>
                   sublist (''The container name '' @ [CHR 0x22] @ containerName c0 @ [CHR 0x22]
                              @ '' is already in use by container'') err
                then Returned None else Returned (Some (CouldNotCreate err)), s', tr) \<and>
        started s' = started c0 \<and> containerID s' = containerID c0 \<and>
        (list_all configOption opts \<and> containerID s = '''' \<longrightarrow>
           \<not> started s' \<and> containerID s' = '''') \<and>
        count isStart tr = 0 \<and> count isLogs tr = 0 \<and> count isInspect tr = 0"
    by (intro exI [of _ s'] exI [of _ tr] conjI)
qed

lemma dockerNameTaken_replies:
  "newClientWithOpts dockerNameTaken = None" "containerCreate dockerNameTaken = Inl conflict"
  "ensureImage dockerNameTaken LocalStackImage =
     (None, [ImageList ''localstack/localstack:3.0''])"
  by (simp_all add: dockerNameTaken_def dockerOK_def ensureImage_def LocalStackImage_def)

lemma configOption_With:
  "configOption (WithContainerName name)" "configOption (WithReuseExisting reuse)"
  by (simp_all add: configOption_def WithContainerName_def WithReuseExisting_def)

lemma dockerDiskFull_replies:
  "newClientWithOpts dockerDiskFull = None"
  "containerCreate dockerDiskFull = Inl ''no space left on device''"
  "ensureImage dockerDiskFull LocalStackImage =
     (None, [ImageList ''localstack/localstack:3.0''])"
  by (simp_all add: dockerDiskFull_def dockerOK_def ensureImage_def LocalStackImage_def)

theorem Start_reuse_witness:
  "(\<exists>s' tr. Start False [WithContainerName ''ls'', WithReuseExisting True] dockerNameTaken New
              = Some (Returned None, s', tr) \<and> \<not> started s' \<and> containerID s' = '''')
   \<and> (\<exists>s' tr. Start False [WithContainerName ''ls''] dockerNameTaken New
              = Some (Returned (Some (CouldNotCreate conflict)), s', tr))
   \<and> (\<exists>s' tr. Start False [WithContainerName ''ls'', WithReuseExisting True] dockerDiskFull New
              = Some (Returned (Some (CouldNotCreate ''no space left on device'')), s', tr))
   \<and> (\<exists>s' tr. Start False [WithContainerName ''web'', WithReuseExisting True] dockerNameTaken New
              = Some (Returned (Some (CouldNotCreate conflict)), s', tr))"
proof -
  have r1: "\<exists>s' tr. Start False [WithContainerName ''ls'', WithReuseExisting True]
                       dockerNameTaken New
              = Some (Returned None, s', tr) \<and> \<not> started s' \<and> containerID s' = ''''"
  proof -
    define c0 where "c0 = fold (\<lambda>opt s'. opt s')
                            [WithContainerName ''ls'', WithReuseExisting True] (New\<lparr>mu := True\<rparr>)"
    have c: "containerName c0 = ''ls''" "reuseExisting c0"
      by (simp_all add: c0_def WithContainerName_def WithReuseExisting_def)
    have n: "sublist (''The container name '' @ [CHR 0x22] @ ''ls'' @ [CHR 0x22]
                        @ '' is already in use by container'') conflict"
      by (simp add: Contains_sublist [symmetric] conflict_def)
    have a: "\<not> mu New \<and> \<not> started New \<and> newClientWithOpts dockerNameTaken = None \<and>
       ensureImage dockerNameTaken LocalStackImage
         = (None, [ImageList ''localstack/localstack:3.0'']) \<and>
       containerCreate dockerNameTaken = Inl conflict \<and>
       c0 = fold (\<lambda>opt s'. opt s') [WithContainerName ''ls'', WithReuseExisting True]
              (New\<lparr>mu := True\<rparr>)"
      by (simp add: New_fields dockerNameTaken_replies c0_def)
    from Start_reuse [where forceRestart = False, THEN mp, OF a] obtain s' tr where
      st: "Start False [WithContainerName ''ls'', WithReuseExisting True] dockerNameTaken New
             = Some (if reuseExisting c0 \<and>
                   sublist (''The container name '' @ [CHR 0x22] @ containerName c0 @ [CHR 0x22]
                              @ '' is already in use by container'') conflict
                then Returned None else Returned (Some (CouldNotCreate conflict)), s', tr)" and
      o: "list_all configOption [WithContainerName ''ls'', WithReuseExisting True] \<and>
            containerID New = '''' \<longrightarrow> \<not> started s' \<and> containerID s' = ''''"
      by blast
    from st have "Start False [WithContainerName ''ls'', WithReuseExisting True]
                    dockerNameTaken New = Some (Returned None, s', tr)"
      by (simp only: c n simp_thms if_True)
    moreover from o have "\<not> started s' \<and> containerID s' = ''''"
      by (simp add: configOption_With New_fields)
    ultimately show ?thesis by (intro exI [of _ s'] exI [of _ tr] conjI) simp_all
  qed
  have r2: "\<exists>s' tr. Start False [WithContainerName ''ls''] dockerNameTaken New
              = Some (Returned (Some (CouldNotCreate conflict)), s', tr)"
  proof -
    define c0 where "c0 = fold (\<lambda>opt s'. opt s') [WithContainerName ''ls''] (New\<lparr>mu := True\<rparr>)"
    have c: "reuseExisting c0 = False"
      by (simp add: c0_def WithContainerName_def New_def)
    have a: "\<not> mu New \<and> \<not> started New \<and> newClientWithOpts dockerNameTaken = None \<and>
       ensureImage dockerNameTaken LocalStackImage
         = (None, [ImageList ''localstack/localstack:3.0'']) \<and>
       containerCreate dockerNameTaken = Inl conflict \<and>
       c0 = fold (\<lambda>opt s'. opt s') [WithContainerName ''ls''] (New\<lparr>mu := True\<rparr>)"
      by (simp add: New_fields dockerNameTaken_replies c0_def)
    from Start_reuse [where forceRestart = False, THEN mp, OF a] obtain s' tr where
      st: "Start False [WithContainerName ''ls''] dockerNameTaken New
             = Some (if reuseExisting c0 \<and>
                   sublist (''The container name '' @ [CHR 0x22] @ containerName c0 @ [CHR 0x22]
                              @ '' is already in use by container'') conflict
                then Returned None else Returned (Some (CouldNotCreate conflict)), s', tr)"
      by blast
    from st have "Start False [WithContainerName ''ls''] dockerNameTaken New
                    = Some (Returned (Some (CouldNotCreate conflict)), s', tr)"
      by (simp only: c simp_thms if_False)
    then show ?thesis by (intro exI [of _ s'] exI [of _ tr])
  qed
  have r3: "\<exists>s' tr. Start False [WithContainerName ''ls'', WithReuseExisting True]
                       dockerDiskFull New
              = Some (Returned (Some (CouldNotCreate ''no space left on device'')), s', tr)"
  proof -
    define c0 where "c0 = fold (\<lambda>opt s'. opt s')
                            [WithContainerName ''ls'', WithReuseExisting True] (New\<lparr>mu := True\<rparr>)"
    have c: "containerName c0 = ''ls''" "reuseExisting c0"
      by (simp_all add: c0_def WithContainerName_def WithReuseExisting_def)
    have n: "sublist (''The container name '' @ [CHR 0x22] @ ''ls'' @ [CHR 0x22]
                        @ '' is already in use by container'') ''no space left on device''
             = False"
      by (simp add: Contains_sublist [symmetric])
    have a: "\<not> mu New \<and> \<not> started New \<and> newClientWithOpts dockerDiskFull = None \<and>
       ensureImage dockerDiskFull LocalStackImage
         = (None, [ImageList ''localstack/localstack:3.0'']) \<and>
       containerCreate dockerDiskFull = Inl ''no space left on device'' \<and>
       c0 = fold (\<lambda>opt s'. opt s') [WithContainerName ''ls'', WithReuseExisting True]
              (New\<lparr>mu := True\<rparr>)"
      by (simp add: New_fields dockerDiskFull_replies c0_def)
    from Start_reuse [where forceRestart = False, THEN mp, OF a] obtain s' tr where
      st: "Start False [WithContainerName ''ls'', WithReuseExisting True] dockerDiskFull New
             = Some (if reuseExisting c0 \<and>
                   sublist (''The container name '' @ [CHR 0x22] @ containerName c0 @ [CHR 0x22]
                              @ '' is already in use by container'') ''no space left on device''
                then Returned None
                else Returned (Some (CouldNotCreate ''no space left on device'')), s', tr)"
      by blast
    from st have "Start False [WithContainerName ''ls'', WithReuseExisting True]
                    dockerDiskFull New
                    = Some (Returned (Some (CouldNotCreate ''no space left on device'')), s', tr)"
      by (simp only: c n simp_thms if_False)
    then show ?thesis by (intro exI [of _ s'] exI [of _ tr])
  qed
  have r4: "\<exists>s' tr. Start False [WithContainerName ''web'', WithReuseExisting True]
                       dockerNameTaken New
              = Some (Returned (Some (CouldNotCreate conflict)), s', tr)"
  proof -
    define c0 where "c0 = fold (\<lambda>opt s'. opt s')
                            [WithContainerName ''web'', WithReuseExisting True] (New\<lparr>mu := True\<rparr>)"
    have c: "containerName c0 = ''web''" "reuseExisting c0"
      by (simp_all add: c0_def WithContainerName_def WithReuseExisting_def)
    have n: "sublist (''The container name '' @ [CHR 0x22] @ ''web'' @ [CHR 0x22]
                        @ '' is already in use by container'') conflict = False"
      by (simp add: Contains_sublist [symmetric] conflict_def)
    have a: "\<not> mu New \<and> \<not> started New \<and> newClientWithOpts dockerNameTaken = None \<and>
       ensureImage dockerNameTaken LocalStackImage
         = (None, [ImageList ''localstack/localstack:3.0'']) \<and>
       containerCreate dockerNameTaken = Inl conflict \<and>
       c0 = fold (\<lambda>opt s'. opt s') [WithContainerName ''web'', WithReuseExisting True]
              (New\<lparr>mu := True\<rparr>)"
      by (simp add: New_fields dockerNameTaken_replies c0_def)
    from Start_reuse [where forceRestart = False, THEN mp, OF a] obtain s' tr where
      st: "Start False [WithContainerName ''web'', WithReuseExisting True] dockerNameTaken New
             = Some (if reuseExisting c0 \<and>
                   sublist (''The container name '' @ [CHR 0x22] @ containerName c0 @ [CHR 0x22]
                              @ '' is already in use by container'') conflict
                then Returned None else Returned (Some (CouldNotCreate conflict)), s', tr)"
      by blast
    from st have "Start False [WithContainerName ''web'', WithReuseExisting True]
                    dockerNameTaken New
                    = Some (Returned (Some (CouldNotCreate conflict)), s', tr)"
      by (simp only: c n simp_thms if_False)
    then show ?thesis by (intro exI [of _ s'] exI [of _ tr])
  qed
  from r1 r2 r3 r4 show ?thesis by (intro conjI)
qed


section \<open>The defaults\<close>

lemma initComplete_marker:
  "initCompleteLogLine s = initCompleteLogLine s' \<Longrightarrow> initComplete d s k = initComplete d s' k"
  by (cases "containerLogs d k") (simp_all add: initComplete_def)

lemma resolvePort_calls:
  "\<exists>r s'. resolvePort d s tr = (r, s', tr @ [ContainerInspect (containerID s)])"
  by (simp add: resolvePort_def split: sum.splits option.splits list.splits)

lemma Start_New_waits:
  assumes nc: "newClientWithOpts d = None"
    and e: "ensureImage d LocalStackImage = (None, tr1)"
    and c: "containerCreate d = Inr ID" and cs: "containerStart d = None"
    and s2: "s2 = New\<lparr>mu := True, cli := Some Client,
                      pm := (pm New)(FixedPort \<mapsto> [\<lparr>HostIP = ''0.0.0.0'', HostPort = ''''\<rparr>]),
                      containerID := ID\<rparr>"
    and tr3: "tr3 = GoWatcher # tr1 @
             [ContainerCreate (containerName New) (getVolumeMounts New)
                ((pm New)(FixedPort \<mapsto> [\<lparr>HostIP = ''0.0.0.0'', HostPort = ''''\<rparr>])),
              ContainerStart ID]"
  shows "Start False [] d New =
           (case waitLoop d s2 0 tr3 of
              None \<Rightarrow> None
            | Some (Some err, tr4) \<Rightarrow> Some (Returned (Some err), s2\<lparr>mu := False\<rparr>,
                                           NewClientWithOpts # tr4)
            | Some (None, tr4) \<Rightarrow>
                (case resolvePort d s2 tr4 of
                   (r, s', tr5) \<Rightarrow> Some (r, s'\<lparr>mu := False\<rparr>, NewClientWithOpts # tr5)))"
proof -
  define s0 where "s0 = New\<lparr>mu := True, cli := Some Client\<rparr>"
  have a: "s2 = s0\<lparr>pm := (pm s0)(FixedPort \<mapsto> [\<lparr>HostIP = ''0.0.0.0'', HostPort = ''''\<rparr>]),
                   containerID := ID\<rparr>"
    by (simp add: s2 s0_def)
  have b: "tr3 = GoWatcher # tr1 @
             [ContainerCreate (containerName s0) (getVolumeMounts s0)
                ((pm s0)(FixedPort \<mapsto> [\<lparr>HostIP = ''0.0.0.0'', HostPort = ''''\<rparr>])),
              ContainerStart ID]"
    by (simp add: tr3 s0_def getVolumeMounts_def)
  have w: "waitForInit s0" by (simp add: s0_def New_def)
  have "start d s0 =
          (case waitLoop d s2 0 tr3 of
             None \<Rightarrow> None
           | Some (Some err, tr4) \<Rightarrow> Some (Returned (Some err), s2, tr4)
           | Some (None, tr4) \<Rightarrow> Some (resolvePort d s2 tr4))"
    using start_runs [OF e c cs a b] w by simp
  then show ?thesis
    by (simp add: Start_fresh [OF New_fields(1) New_fields(2)]
        configureAndStart_client [OF nc] s0_def
        split: option.splits prod.splits)
qed

text \<open>
  Claim C10. \<open>New\<close> sets \<open>waitForInit\<close> and an empty port map and leaves every other
  field at its zero value. So \<open>Start\<close> with no options on \<open>New\<close>, once the container has
  started, polls the log whatever the clock says: if the marker never shows, \<open>Start\<close> never
  returns, and if it first shows at poll \<open>n\<close>, \<open>Start\<close> returns after \<open>n + 1\<close> polls.
\<close>

theorem New_defaults:
  "waitForInit New \<and> pm New = Map.empty \<and> containerName New = '''' \<and> volumeMounts New = []
   \<and> initTimeout New = 0 \<and> \<not> reuseExisting New \<and> \<not> started New \<and> containerID New = ''''
   \<and> initCompleteLogLine New = '''' \<and> cli New = None \<and> \<not> mu New \<and> ctx New = TODO
   \<and> (newClientWithOpts d = None \<and> ensureImage d LocalStackImage = (None, tr1) \<and>
       containerCreate d = Inr ID \<and> containerStart d = None \<longrightarrow>
         ((\<forall>k. \<not> initComplete d New k) \<longrightarrow> Start False [] d New = None)
         \<and> (initComplete d New n \<and> (\<forall>j<n. \<not> initComplete d New j) \<longrightarrow>
              (\<exists>r s tr. Start False [] d New = Some (r, s, tr) \<and> count isLogs tr = Suc n)))"
proof -
  have fields: "waitForInit New \<and> pm New = Map.empty \<and> containerName New = '''' \<and>
     volumeMounts New = [] \<and> initTimeout New = 0 \<and> \<not> reuseExisting New \<and> \<not> started New \<and>
     containerID New = '''' \<and> initCompleteLogLine New = '''' \<and> cli New = None \<and> \<not> mu New \<and>
     ctx New = TODO"
    by (simp add: New_def)
  have run: "((\<forall>k. \<not> initComplete d New k) \<longrightarrow> Start False [] d New = None)
         \<and> (initComplete d New n \<and> (\<forall>j<n. \<not> initComplete d New j) \<longrightarrow>
              (\<exists>r s tr. Start False [] d New = Some (r, s, tr) \<and> count isLogs tr = Suc n))"
    if p: "newClientWithOpts d = None \<and> ensureImage d LocalStackImage = (None, tr1) \<and>
       containerCreate d = Inr ID \<and> containerStart d = None"
  proof -
    from p have nc: "newClientWithOpts d = None"
      and e: "ensureImage d LocalStackImage = (None, tr1)"
      and c: "containerCreate d = Inr ID" and cs: "containerStart d = None"
      by simp_all
    define s2 where "s2 = New\<lparr>mu := True, cli := Some Client,
                      pm := (pm New)(FixedPort \<mapsto> [\<lparr>HostIP = ''0.0.0.0'', HostPort = ''''\<rparr>]),
                      containerID := ID\<rparr>"
    define tr3 where "tr3 = GoWatcher # tr1 @
             [ContainerCreate (containerName New) (getVolumeMounts New)
                ((pm New)(FixedPort \<mapsto> [\<lparr>HostIP = ''0.0.0.0'', HostPort = ''''\<rparr>])),
              ContainerStart ID]"
    note st = Start_New_waits [OF nc e c cs s2_def tr3_def]
    have to: "\<And>k. \<not> timedOut d s2 k"
      by (rule timedOut_zero) (simp add: s2_def New_def)
    have ic: "\<And>k. initComplete d s2 k = initComplete d New k"
      by (rule initComplete_marker) (simp add: s2_def)
    have id: "containerID s2 = ID" by (simp add: s2_def)
    show ?thesis
    proof (intro conjI impI)
      assume "\<forall>k. \<not> initComplete d New k"
      then have "\<forall>n. \<not> timedOut d s2 (0 + n) \<and> \<not> initComplete d s2 (0 + n)"
        by (simp add: to ic)
      then have "waitLoop d s2 0 tr3 = None" by (rule waitLoop_None)
      with st show "Start False [] d New = None" by simp
    next
      assume "initComplete d New n \<and> (\<forall>j<n. \<not> initComplete d New j)"
      then have a: "\<not> timedOut d s2 (0 + n)" and b: "initComplete d s2 (0 + n)"
        and c: "\<forall>j<n. \<not> timedOut d s2 (0 + j) \<and> \<not> initComplete d s2 (0 + j)"
        by (simp_all add: to ic)
      define tr4 where "tr4 = tr3 @ polls ID n @ [ContainerLogs ID]"
      from waitLoop_ready_at [OF a b c, of tr3]
      have w: "waitLoop d s2 0 tr3 = Some (None, tr4)" by (simp add: id tr4_def)
      from resolvePort_calls [of d s2 tr4] obtain r s' where
        rp: "resolvePort d s2 tr4 = (r, s', tr4 @ [ContainerInspect ID])"
        by (auto simp: id)
      have "Start False [] d New =
              Some (r, s'\<lparr>mu := False\<rparr>, NewClientWithOpts # tr4 @ [ContainerInspect ID])"
        by (simp add: st w rp)
      moreover have "count isLogs (NewClientWithOpts # tr4 @ [ContainerInspect ID]) = Suc n"
        by (simp add: tr4_def tr3_def count_append count_Cons count_Nil count_polls
            count_tr1 [OF e])
      ultimately
      show "\<exists>r s tr. Start False [] d New = Some (r, s, tr) \<and> count isLogs tr = Suc n"
        by blast
    qed
  qed
  from fields run show ?thesis by blast
qed


lemma dockerNeverReady_replies:
  "newClientWithOpts dockerNeverReady = None \<and>
   ensureImage dockerNeverReady LocalStackImage =
     (None, [ImageList ''localstack/localstack:3.0'']) \<and>
   containerCreate dockerNeverReady = Inr ''c1'' \<and> containerStart dockerNeverReady = None"
  by (simp add: dockerNeverReady_def dockerOK_def ensureImage_def LocalStackImage_def)

lemma dockerNeverReady_logs: "\<forall>k. \<not> initComplete dockerNeverReady New k"
  by (simp add: initComplete_def dockerNeverReady_def New_def)

theorem New_defaults_witness:
  "Start False [] dockerNeverReady New = None
   \<and> (\<exists>r s tr. Start False [] dockerOK New = Some (r, s, tr) \<and> count isLogs tr = Suc 0)"
proof
  from New_defaults [where d = dockerNeverReady
      and ?tr1.0 = "[ImageList ''localstack/localstack:3.0'']" and ID = "''c1''" and n = 0]
  have "newClientWithOpts dockerNeverReady = None \<and>
        ensureImage dockerNeverReady LocalStackImage =
          (None, [ImageList ''localstack/localstack:3.0'']) \<and>
        containerCreate dockerNeverReady = Inr ''c1'' \<and> containerStart dockerNeverReady = None \<longrightarrow>
          ((\<forall>k. \<not> initComplete dockerNeverReady New k) \<longrightarrow>
             Start False [] dockerNeverReady New = None)"
    by blast
  with dockerNeverReady_replies dockerNeverReady_logs
  show "Start False [] dockerNeverReady New = None" by blast
next
  have p: "newClientWithOpts dockerOK = None \<and>
        ensureImage dockerOK LocalStackImage = (None, [ImageList ''localstack/localstack:3.0'']) \<and>
        containerCreate dockerOK = Inr ''c1'' \<and> containerStart dockerOK = None"
    by (simp add: dockerOK_replies ensureImage_dockerOK)
  have q: "initComplete dockerOK New 0 \<and> (\<forall>j<0. \<not> initComplete dockerOK New j)"
    by (simp add: initComplete_dockerOK New_def)
  from New_defaults [where d = dockerOK
      and ?tr1.0 = "[ImageList ''localstack/localstack:3.0'']" and ID = "''c1''" and n = 0]
  have "newClientWithOpts dockerOK = None \<and>
        ensureImage dockerOK LocalStackImage = (None, [ImageList ''localstack/localstack:3.0'']) \<and>
        containerCreate dockerOK = Inr ''c1'' \<and> containerStart dockerOK = None \<longrightarrow>
          (initComplete dockerOK New 0 \<and> (\<forall>j<0. \<not> initComplete dockerOK New j) \<longrightarrow>
              (\<exists>r s tr. Start False [] dockerOK New = Some (r, s, tr) \<and>
                 count isLogs tr = Suc 0))"
    by blast
  with p q
  show "\<exists>r s tr. Start False [] dockerOK New = Some (r, s, tr) \<and> count isLogs tr = Suc 0"
    by blast
qed

section \<open>The invariant\<close>

lemma stop_state:
  "stop d s = (r, s', tr) \<Longrightarrow> s' = s \<or> s' = s\<lparr>containerID := '''', started := False\<rparr>"
  by (auto simp: stop_def split: if_splits option.splits)

lemma Stop_state:
  assumes "Stop d s = Some (r, s', tr)"
  shows "\<not> mu s \<and> \<not> mu s' \<and> (s' = s \<or> s' = s\<lparr>containerID := '''', started := False\<rparr>)"
proof -
  from assms have f: "\<not> mu s" by (auto simp: Stop_def Lock_def split: if_splits)
  obtain r2 s2 tr2 where st: "stop d (s\<lparr>mu := True\<rparr>) = (r2, s2, tr2)"
    by (cases "stop d (s\<lparr>mu := True\<rparr>)") blast
  with assms f have s': "s' = s2\<lparr>mu := False\<rparr>" by (simp add: Stop_free)
  from stop_state [OF st]
  have "s2 = s\<lparr>mu := True\<rparr> \<or> s2 = s\<lparr>mu := True\<rparr>\<lparr>containerID := '''', started := False\<rparr>" .
  then show ?thesis
  proof
    assume "s2 = s\<lparr>mu := True\<rparr>"
    with s' f show ?thesis by (simp add: Unlock_free)
  next
    assume "s2 = s\<lparr>mu := True\<rparr>\<lparr>containerID := '''', started := False\<rparr>"
    with s' have "s' = s\<lparr>containerID := '''', started := False, mu := False\<rparr>" by simp
    moreover have "s\<lparr>containerID := '''', started := False, mu := False\<rparr> =
                   s\<lparr>containerID := '''', started := False\<rparr>"
      using f by (cases s) simp
    ultimately show ?thesis using f by simp
  qed
qed

lemma Start_unlocks:
  assumes "Start forceRestart opts d s = Some (r, s', tr)"
  shows "\<not> mu s \<and> \<not> mu s'"
proof -
  from assms have f: "\<not> mu s" by (auto simp: Start_def Lock_def split: if_splits)
  show ?thesis
  proof (cases "started s")
    case True
    show ?thesis
    proof (cases forceRestart)
      case True
      with \<open>started s\<close> assms show ?thesis by (simp add: Start_restart_None)
    next
      case False
      with \<open>started s\<close> f assms show ?thesis by (simp add: Start_noop)
    qed
  next
    case False
    from Start_fresh_cases [OF f False assms refl] f show ?thesis by auto
  qed
qed

text \<open>
  Claim C6. In every state reached from \<open>New\<close> through calls of \<open>Start\<close> and \<open>Stop\<close>
  that return (the options only configure, the runtime gives non-empty identifiers), the lock
  is free, and a started controller has a non-empty \<open>containerID\<close>, a port map whose entry
  for \<open>4566/tcp\<close> is one binding on \<open>localhost\<close>, and a client.
\<close>

theorem reachable_resolved:
  "reachable s \<Longrightarrow> \<not> mu s \<and> (started s \<longrightarrow> resolved s \<and> cli s \<noteq> None)"
proof (induction rule: reachable.induct)
  case reachable_New
  show ?case by (simp add: New_def)
next
  case (reachable_Start s opts d forceRestart r s' tr)
  from reachable_Start.IH have f: "\<not> mu s"
    and inv: "started s \<longrightarrow> resolved s \<and> cli s \<noteq> None"
    by simp_all
  from Start_unlocks [OF reachable_Start.hyps(4)] have f': "\<not> mu s'" by simp
  show ?case
  proof (cases "started s")
    case True
    show ?thesis
    proof (cases forceRestart)
      case True
      with \<open>started s\<close> reachable_Start.hyps(4) show ?thesis
        by (simp add: Start_restart_None)
    next
      case False
      with \<open>started s\<close> f reachable_Start.hyps(4) have "s' = s" by (simp add: Start_noop)
      with inv f show ?thesis by simp
    qed
  next
    case False
    show ?thesis
    proof (cases "started s'")
      case n: False
      with f' show ?thesis by simp
    next
      case True
      from Start_fresh_started [OF f False reachable_Start.hyps(2) reachable_Start.hyps(4) True]
      obtain ID ports b bs where i: "containerCreate d = Inr ID" "containerID s' = ID"
        "pm s' FixedPort = Some [\<lparr>HostIP = ''localhost'', HostPort = HostPort b\<rparr>]"
        "cli s' = Some Client" "containerInspect d = Inr ports"
        "ports FixedPort = Some (b # bs)"
        by blast
      from i(1) reachable_Start.hyps(3) have "ID \<noteq> ''''"
        by (auto simp: wellFormed_def)
      with i have "resolved s' \<and> cli s' \<noteq> None" by (simp add: resolved_def)
      with f' show ?thesis by simp
    qed
  qed
next
  case (reachable_Stop s d r s' tr)
  from reachable_Stop.IH have inv: "started s \<longrightarrow> resolved s \<and> cli s \<noteq> None" by simp
  from Stop_state [OF reachable_Stop.hyps(2)]
  have f': "\<not> mu s'" and c: "s' = s \<or> s' = s\<lparr>containerID := '''', started := False\<rparr>"
    by simp_all
  from c show ?case
  proof
    assume "s' = s"
    with inv f' show ?thesis by simp
  next
    assume "s' = s\<lparr>containerID := '''', started := False\<rparr>"
    with f' show ?thesis by simp
  qed
qed

theorem reachable_resolved_witness:
  "reachable running \<and> started running \<and> containerID running = ''c1''
   \<and> pm running FixedPort = Some [\<lparr>HostIP = ''localhost'', HostPort = ''32768''\<rparr>]
   \<and> resolved running"
proof -
  have w: "wellFormed dockerOK" by (simp add: wellFormed_def dockerOK_replies)
  have o: "list_all configOption []" by simp
  have r: "reachable running"
    by (rule reachable_Start [OF reachable_New o w Start_dockerOK])
  from reachable_resolved [OF r] have "resolved running" by (simp add: running_fields)
  moreover have "pm running FixedPort = Some [\<lparr>HostIP = ''localhost'', HostPort = ''32768''\<rparr>]"
    by (simp add: running_def FixedPort_eq)
  ultimately show ?thesis using r by (simp add: running_fields)
qed

end
